theory Spec2Isabelle
  imports Main "HOL-Library.Word"
begin


section \<open>Values crossing the script boundary\<close>

text \<open>
  The delivery script runs in a goja interpreter. What the Go code inspects is the value
  the interpreter hands back (\<open>goja.Value\<close>) and its export to Go
  (\<open>result.Export()\<close>): a plain JS object exports to \<open>map[string]interface{}\<close>, an array
  to \<open>[]interface{}\<close>, a string to \<open>string\<close>, a boolean to \<open>bool\<close>, and \<open>undefined\<close> and
  \<open>null\<close> to the nil interface. Anything else a script can return (a function, a host
  object) exports to a Go value that is none of these and is \<open>JSOther\<close> here. A Go map has
  one value per key: an object is an association list read with \<open>map_of\<close>. Numbers are
  never inspected by the code modelled here.
\<close>

datatype jsval =
    JSUndefined
  | JSNull
  | JSBool bool
  | JSNumber int
  | JSString string
  | JSArray "jsval list"
  | JSObject "(string \<times> jsval) list"
  | JSOther

text \<open>Go type assertions \<open>v.(bool)\<close>, \<open>v.(string)\<close> on the value found under a key
  (a missing key reads as the nil interface, for which every assertion fails).\<close>

fun asBool :: "jsval option \<Rightarrow> bool option" where
  "asBool (Some (JSBool b)) = Some b"
| "asBool _ = None"

fun asString :: "jsval option \<Rightarrow> string option" where
  "asString (Some (JSString s)) = Some s"
| "asString _ = None"

text \<open>\<open>fmt\<close>'s \<open>%d\<close>.\<close>

definition digits10 :: string where
  "digits10 = ''0123456789''"

fun natToDec :: "nat \<Rightarrow> string" where
  "natToDec n =
     (if n < 10 then [digits10 ! n]
      else natToDec (n div 10) @ [digits10 ! (n mod 10)])"

declare natToDec.simps [simp del]

definition itoa :: "int \<Rightarrow> string" where
  "itoa i = (if i < 0 then CHR ''-'' # natToDec (nat (- i)) else natToDec (nat i))"

section \<open>script_delivery_service.go: the delivery result\<close>

record ScriptDeliveryItem =
  Content :: string
  Remark :: string

record ScriptDeliveryResult =
  Success :: bool
  Items :: "ScriptDeliveryItem list"
  Message :: string

text \<open>What a call hands back: the result pointer (\<open>None\<close> is nil), the error (\<open>None\<close> is
  nil) and the lines written with \<open>log.Printf\<close>.\<close>

record parse_outcome =
  po_result :: "ScriptDeliveryResult option"
  po_err :: "string option"
  po_log :: "string list"

text \<open>The body of the loop over \<open>items\<close>: the item appended for one array element, if any.\<close>

fun parseItem :: "jsval \<Rightarrow> ScriptDeliveryItem option" where
  "parseItem (JSObject itemMap) =
     (let content = (case asString (map_of itemMap ''content'') of Some c \<Rightarrow> c | None \<Rightarrow> '''');
          remark = (case asString (map_of itemMap ''remark'') of Some r \<Rightarrow> r | None \<Rightarrow> '''')
      in if content \<noteq> '''' then Some \<lparr>Content = content, Remark = remark\<rparr> else None)"
| "parseItem _ = None"

fun parseItems :: "jsval option \<Rightarrow> ScriptDeliveryItem list" where
  "parseItems (Some (JSArray arr)) = List.map_filter parseItem arr"
| "parseItems _ = []"

fun parseDeliveryResult :: "jsval option \<Rightarrow> int \<Rightarrow> parse_outcome" where
  "parseDeliveryResult None expectedQty =
     \<lparr>po_result = None, po_err = Some ''script returned empty result'', po_log = []\<rparr>"
| "parseDeliveryResult (Some JSUndefined) expectedQty =
     \<lparr>po_result = None, po_err = Some ''script returned empty result'', po_log = []\<rparr>"
| "parseDeliveryResult (Some JSNull) expectedQty =
     \<lparr>po_result = None, po_err = Some ''script returned empty result'', po_log = []\<rparr>"
| "parseDeliveryResult (Some (JSObject obj)) expectedQty =
     (let success = (case asBool (map_of obj ''success'') of Some b \<Rightarrow> b | None \<Rightarrow> False);
          message = (case asString (map_of obj ''message'') of Some m \<Rightarrow> m | None \<Rightarrow> '''')
      in if \<not> success then
           \<lparr>po_result = Some \<lparr>Success = success, Items = [], Message = message\<rparr>,
            po_err = Some (''script delivery failed: '' @
                           (if message = '''' then ''script delivery failed'' else message)),
            po_log = []\<rparr>
         else
           (let items = parseItems (map_of obj ''items'');
                res = \<lparr>Success = success, Items = items, Message = message\<rparr>
            in if length items = 0 then
                 \<lparr>po_result = Some res, po_err = Some ''script returned no delivery items'',
                  po_log = []\<rparr>
               else
                 \<lparr>po_result = Some res, po_err = None,
                  po_log = (if int (length items) \<noteq> expectedQty
                            then [''[ScriptDelivery] Warning: expected '' @ itoa expectedQty @
                                  '' items, got '' @ itoa (int (length items))]
                            else [])\<rparr>))"
| "parseDeliveryResult (Some v) expectedQty =
     \<lparr>po_result = None, po_err = Some ''script must return an object with {success, items}'',
      po_log = []\<rparr>"


text \<open>
  \<open>ExecuteDeliveryScript\<close> runs the pool's script in a fresh interpreter under a ten second
  interrupt and calls \<open>onDeliver(order, config)\<close>. The interpreter is not part of this
  repository: its run is summarised by what the Go code observes of it, in the order the
  code observes it (\<open>RunString\<close> failing, \<open>onDeliver\<close> not being a function, the call
  failing, which includes the interrupt, or the call returning a value).
\<close>

datatype vm_outcome =
    RunStringFailed string
  | OnDeliverNotFound
  | OnDeliverFailed string
  | OnDeliverReturned "jsval option"

record VirtualInventory =
  vi_ID :: nat
  vi_Script :: string
  vi_ScriptConfig :: string

definition failed_outcome :: "string \<Rightarrow> parse_outcome" where
  "failed_outcome e = \<lparr>po_result = None, po_err = Some e, po_log = []\<rparr>"

definition ExecuteDeliveryScript ::
  "(VirtualInventory \<Rightarrow> 'order \<Rightarrow> int \<Rightarrow> vm_outcome) \<Rightarrow>
   VirtualInventory \<Rightarrow> 'order \<Rightarrow> int \<Rightarrow> parse_outcome" where
  "ExecuteDeliveryScript vm inventory order quantity =
     (if vi_Script inventory = '''' then
        failed_outcome (''inventory '' @ itoa (int (vi_ID inventory)) @ '' has no script'')
      else
        (case vm inventory order quantity of
           RunStringFailed e \<Rightarrow> failed_outcome (''script execution error: '' @ e)
         | OnDeliverNotFound \<Rightarrow> failed_outcome ''onDeliver function not found in script''
         | OnDeliverFailed e \<Rightarrow> failed_outcome (''onDeliver execution error: '' @ e)
         | OnDeliverReturned res \<Rightarrow> parseDeliveryResult res quantity))"

section \<open>Stock ledger and bindings\<close>

text \<open>
  Modelled from the spec: the pools, stock items and bindings of the data model (section
  3). The code that owns them (\<open>virtual_inventory_service.go\<close>, \<open>order_service.go\<close>) is
  named by the delivery document of the repository but is not among the sources. A
  stock item and a binding refer to their order by its number.
\<close>

datatype pool_kind = Static | Script

datatype stock_status = Available | Reserved | Sold | Invalid

record InventoryPool =
  pool_id :: nat
  pool_kind :: pool_kind
  sold_count :: int

record StockItem =
  si_pool :: nat
  si_content :: string
  si_remark :: string
  si_status :: stock_status
  si_order :: "string option"

record Binding =
  b_order :: string
  b_item :: nat
  b_pool :: nat
  b_quantity :: int

record Ledger =
  pools :: "InventoryPool list"
  stock :: "StockItem list"
  bindings :: "Binding list"

text \<open>
  Modelled from the spec: \<open>CreateSold(pool, content[], orderRef)\<close> of the Stock Ledger
  (section 4.1), whose code is not among the sources: it inserts one row per content,
  already in state \<open>sold\<close>, and increments the pool's sold counter.
\<close>

definition CreateSold :: "Ledger \<Rightarrow> nat \<Rightarrow> ScriptDeliveryItem list \<Rightarrow> string \<Rightarrow> Ledger" where
  "CreateSold l pool items orderRef =
     l\<lparr>stock := stock l @
           map (\<lambda>it. \<lparr>si_pool = pool, si_content = Content it, si_remark = Remark it,
                      si_status = Sold, si_order = Some orderRef\<rparr>) items,
       pools := map (\<lambda>p. if pool_id p = pool
                          then p\<lparr>sold_count := sold_count p + int (length items)\<rparr> else p)
                    (pools l)\<rparr>"

text \<open>
  Modelled from the spec: the caller of \<open>ExecuteDeliveryScript\<close> for one script pool of
  an order (the binding phase of \<open>Deliver\<close>, section 4.3, and step 6 of section 4.4), whose
  code is not among the sources: the script is executed once for the pool; when the
  attempt fails no stock row is created; when the result is accepted the returned items
  are written as sold rows with \<open>CreateSold\<close>. (The delivery document of the repository
  adds that production delivery wants at least as many items as are due. That check
  would sit in this absent caller, bears on accepted results only, and is not part of
  the specification's words followed here.)
\<close>

definition deliverScriptPool ::
  "(VirtualInventory \<Rightarrow> 'order \<Rightarrow> int \<Rightarrow> vm_outcome) \<Rightarrow> Ledger \<Rightarrow>
   VirtualInventory \<Rightarrow> 'order \<Rightarrow> string \<Rightarrow> int \<Rightarrow> string option \<times> Ledger" where
  "deliverScriptPool vm l inventory order orderNo quantity =
     (let out = ExecuteDeliveryScript vm inventory order quantity
      in case po_err out of
           Some e \<Rightarrow> (Some e, l)
         | None \<Rightarrow>
             (case po_result out of
                None \<Rightarrow> (Some ''no result'', l)
              | Some res \<Rightarrow> (None, CreateSold l (vi_ID inventory) (Items res) orderNo)))"

section \<open>Pending delivery quantity\<close>

text \<open>
  Modelled from the spec: the pools bound to an order (the keys of
  \<open>PendingFor(order)\<close>, section 4.2), from the bindings of the order; the code
  (\<open>getScriptPendingItems\<close> in \<open>virtual_inventory_service.go\<close>) is not among the sources.
\<close>

definition boundPools :: "Ledger \<Rightarrow> string \<Rightarrow> nat list" where
  "boundPools l ord = remdups (map b_pool (filter (\<lambda>b. b_order b = ord) (bindings l)))"

text \<open>
  Modelled from the spec: the bound quantity of a pool for an order (section 4.2), the
  sum of the quantities of the order's bindings to the pool; the code is not among the
  sources.
\<close>

definition boundQuantity :: "Ledger \<Rightarrow> string \<Rightarrow> nat \<Rightarrow> int" where
  "boundQuantity l ord p =
     sum_list (map b_quantity (filter (\<lambda>b. b_order b = ord \<and> b_pool b = p) (bindings l)))"

text \<open>
  Modelled from the spec: the already-sold quantity of a pool for an order (section
  4.2), "obtained from the Stock Ledger filtered by order reference and pool"; the code
  is not among the sources.
\<close>

definition soldQuantity :: "Ledger \<Rightarrow> string \<Rightarrow> nat \<Rightarrow> int" where
  "soldQuantity l ord p =
     int (length (filter (\<lambda>s. si_status s = Sold \<and> si_order s = Some ord \<and> si_pool s = p)
                         (stock l)))"

text \<open>
  Modelled from the spec: \<open>PendingFor(order)\<close> of the Binding Tracker (section 4.2), whose
  code (\<open>getScriptPendingItems\<close> in \<open>virtual_inventory_service.go\<close>) is not among the
  sources: for each pool bound to the order, the bound quantity minus the quantity
  already sold for this order.
\<close>

definition PendingFor :: "Ledger \<Rightarrow> string \<Rightarrow> (nat \<times> int) list" where
  "PendingFor l ord =
     map (\<lambda>p. (p, boundQuantity l ord p - soldQuantity l ord p)) (boundPools l ord)"

text \<open>
  Modelled from the spec: whether a pool id names a pool of kind \<open>script\<close> (section 3);
  the pool model is not among the sources.
\<close>

definition isScriptPool :: "Ledger \<Rightarrow> nat \<Rightarrow> bool" where
  "isScriptPool l p =
     (case find (\<lambda>q. pool_id q = p) (pools l) of
        Some q \<Rightarrow> pool_kind q = Script
      | None \<Rightarrow> False)"

text \<open>
  Modelled from the spec: the legacy path of \<open>PendingDeliveryQuantity\<close> (section 4.3),
  the stock rows with status \<open>reserved\<close> whose pool is of kind \<open>script\<close> and whose order
  reference matches; the code is not among the sources.
\<close>

definition legacyReserved :: "Ledger \<Rightarrow> string \<Rightarrow> StockItem list" where
  "legacyReserved l ord =
     filter (\<lambda>s. si_status s = Reserved \<and> isScriptPool l (si_pool s) \<and> si_order s = Some ord)
            (stock l)"

text \<open>
  Modelled from the spec: \<open>PendingDeliveryQuantity(order)\<close> of the Allocation Service
  (section 4.3), whose code (\<open>HasPendingVirtualStock\<close> and its helpers in
  \<open>virtual_inventory_service.go\<close>) is not among the sources: the legacy count plus
  \<open>PendingFor\<close> summed across pools.
\<close>

definition PendingDeliveryQuantity :: "Ledger \<Rightarrow> string \<Rightarrow> int" where
  "PendingDeliveryQuantity l ord =
     int (length (legacyReserved l ord)) + sum_list (map snd (PendingFor l ord))"

section \<open>order_cancel_service.go: the auto-cancel sweep\<close>

text \<open>
  The order model (\<open>models.Order\<close>) is not among the sources: the record holds the fields
  the service reads and writes. The status constants are those the sources name; any
  other status is \<open>OrderStatusOther\<close>. A time is a number of nanoseconds.
\<close>

datatype order_status =
    OrderStatusDraft
  | OrderStatusPendingPayment
  | OrderStatusNeedResubmit
  | OrderStatusCompleted
  | OrderStatusCancelled
  | OrderStatusOther string

record OrderItem =
  oi_Quantity :: int

record Order =
  o_ID :: nat
  o_OrderNo :: string
  o_Status :: order_status
  o_AdminRemark :: string
  o_CreatedAt :: int
  o_Items :: "OrderItem list"
  o_InventoryBindings :: "(nat \<times> nat) list"
  o_PromoCodeID :: "nat option"

text \<open>
  The database and the collaborating repositories are reached through calls. A call is
  recorded when it is made; whether it returns an error is decided by a fault function that
  sees the calls made so far, so that every pattern of failures is covered. The release
  operations themselves (\<open>inventoryRepo\<close>, \<open>virtualInventorySvc\<close>, \<open>promoCodeRepo\<close>,
  \<open>serialService\<close>) are not among the sources: what is modelled of them is that they are
  called, with which arguments, and whether they report an error.
\<close>

datatype cancel_call =
    QueryExpiredOrders
  | UpdateOrderStatus nat
  | InventoryReleaseReserve nat int string
  | VirtualReleaseStock string
  | PromoReleaseReserve nat string
  | DeleteSerialsByOrderID nat

type_synonym 'c faults = "'c list \<Rightarrow> 'c \<Rightarrow> string option"

text \<open>Entries written through \<open>logger.LogPaymentOperation\<close> (\<open>order_auto_cancelled\<close>: order
  id, order number, creation time) and \<open>logger.LogSystemOperation\<close> (\<open>order_auto_cancel\<close>:
  cancelled count, hours, cutoff).\<close>

datatype cancel_op =
    OrderAutoCancelled nat string int
  | OrderAutoCancelSweep int int int

record cancel_world =
  cw_orders :: "Order list"
  cw_calls :: "cancel_call list"
  cw_logs :: "string list"
  cw_oplog :: "cancel_op list"

text \<open>The service: the configured hours, and which of the optional collaborators are set
  (the fields compared with nil).\<close>

record OrderCancelService =
  cfg_AutoCancelHours :: int
  virtualInventorySvc_set :: bool
  promoCodeRepo_set :: bool
  serialService_set :: bool

definition defaultAutoCancelHours :: int where
  "defaultAutoCancelHours = 72"

definition getAutoCancelHours :: "OrderCancelService \<Rightarrow> int" where
  "getAutoCancelHours s =
     (if cfg_AutoCancelHours s > 0 then cfg_AutoCancelHours s else defaultAutoCancelHours)"

text \<open>\<open>time.Now().Add(-time.Duration(hours) * time.Hour)\<close>: a \<open>Duration\<close> is a signed 64-bit
  count of nanoseconds, and the negation and the product wrap around.\<close>

definition hoursBefore :: "int \<Rightarrow> int \<Rightarrow> int" where
  "hoursBefore now hours = now + sint (- (word_of_int hours :: 64 word) * 3600000000000)"

text \<open>
  \<open>db.Model(order).Where("status = ?", pending).Updates(status, admin_remark)\<close>: the rows
  with the order's primary key that are still pending payment are set to cancelled; the
  number of such rows is \<open>RowsAffected\<close>. (A stored order has a non-zero primary key, for
  which gorm adds the key to the condition.)
\<close>

definition rowsAffected :: "nat \<Rightarrow> Order list \<Rightarrow> nat" where
  "rowsAffected oid rows =
     length (filter (\<lambda>r. o_ID r = oid \<and> o_Status r = OrderStatusPendingPayment) rows)"

definition cancelRows :: "nat \<Rightarrow> string \<Rightarrow> Order list \<Rightarrow> Order list" where
  "cancelRows oid remark rows =
     map (\<lambda>r. if o_ID r = oid \<and> o_Status r = OrderStatusPendingPayment
               then r\<lparr>o_Status := OrderStatusCancelled, o_AdminRemark := remark\<rparr> else r) rows"

text \<open>\<open>if err := release(...); err != nil { log.Printf(...) }\<close>: the call is made, and a
  failure is logged and nothing else.\<close>

definition attempt ::
  "cancel_call faults \<Rightarrow> cancel_call \<Rightarrow> (string \<Rightarrow> string) \<Rightarrow> cancel_world \<Rightarrow> cancel_world" where
  "attempt flt c msg w =
     (case flt (cw_calls w) c of
        None \<Rightarrow> w\<lparr>cw_calls := cw_calls w @ [c]\<rparr>
      | Some e \<Rightarrow> w\<lparr>cw_calls := cw_calls w @ [c], cw_logs := cw_logs w @ [msg e]\<rparr>)"

text \<open>The loop \<open>for i := range order.Items\<close> releasing the static inventory bound to item \<open>i\<close>.\<close>

fun releaseItems ::
  "cancel_call faults \<Rightarrow> Order \<Rightarrow> nat \<Rightarrow> OrderItem list \<Rightarrow> cancel_world \<Rightarrow> cancel_world" where
  "releaseItems flt order i [] w = w"
| "releaseItems flt order i (item # rest) w =
     releaseItems flt order (Suc i) rest
       (case map_of (o_InventoryBindings order) i of
          Some inventoryID \<Rightarrow>
            if inventoryID > 0 then
              attempt flt
                (InventoryReleaseReserve inventoryID (oi_Quantity item) (o_OrderNo order))
                (\<lambda>e. ''[OrderCancel] Order '' @ o_OrderNo order @
                      '' failed to release inventory '' @ itoa (int inventoryID) @ '': '' @ e)
                w
            else w
        | None \<Rightarrow> w)"

definition releaseVirtual ::
  "cancel_call faults \<Rightarrow> OrderCancelService \<Rightarrow> Order \<Rightarrow> cancel_world \<Rightarrow> cancel_world" where
  "releaseVirtual flt s order w =
     (if virtualInventorySvc_set s then
        attempt flt (VirtualReleaseStock (o_OrderNo order))
          (\<lambda>e. ''[OrderCancel] Order '' @ o_OrderNo order @
                '' failed to release virtual stock: '' @ e) w
      else w)"

definition releasePromo ::
  "cancel_call faults \<Rightarrow> OrderCancelService \<Rightarrow> Order \<Rightarrow> cancel_world \<Rightarrow> cancel_world" where
  "releasePromo flt s order w =
     (case o_PromoCodeID order of
        Some promoCodeID \<Rightarrow>
          if promoCodeRepo_set s then
            attempt flt (PromoReleaseReserve promoCodeID (o_OrderNo order))
              (\<lambda>e. ''[OrderCancel] Order '' @ o_OrderNo order @
                    '' failed to release promo code: '' @ e) w
          else w
      | None \<Rightarrow> w)"

definition deleteSerials ::
  "cancel_call faults \<Rightarrow> OrderCancelService \<Rightarrow> Order \<Rightarrow> cancel_world \<Rightarrow> cancel_world" where
  "deleteSerials flt s order w =
     (if serialService_set s then
        attempt flt (DeleteSerialsByOrderID (o_ID order))
          (\<lambda>e. ''[OrderCancel] Order '' @ o_OrderNo order @ '' failed to delete serials: '' @ e) w
      else w)"

text \<open>\<open>cancelOrder\<close>: the returned error (\<open>None\<close> is nil) and the world after the call.\<close>

definition cancelOrder ::
  "cancel_call faults \<Rightarrow> OrderCancelService \<Rightarrow> Order \<Rightarrow> int \<Rightarrow> cancel_world \<Rightarrow>
   string option \<times> cancel_world" where
  "cancelOrder flt s order autoCancelHours w =
     (let adminRemark = ''System auto-cancelled: order unpaid after '' @ itoa autoCancelHours @
                        '' hours'';
          w0 = w\<lparr>cw_calls := cw_calls w @ [UpdateOrderStatus (o_ID order)]\<rparr>
      in case flt (cw_calls w) (UpdateOrderStatus (o_ID order)) of
           Some e \<Rightarrow> (Some e, w0)
         | None \<Rightarrow>
             if rowsAffected (o_ID order) (cw_orders w) = 0 then (None, w0)
             else
               (let w1 = w0\<lparr>cw_orders := cancelRows (o_ID order) adminRemark (cw_orders w)\<rparr>;
                    w2 = releaseItems flt order 0 (o_Items order) w1;
                    w3 = releaseVirtual flt s order w2;
                    w4 = releasePromo flt s order w3;
                    w5 = deleteSerials flt s order w4
                in (None,
                    w5\<lparr>cw_oplog := cw_oplog w5 @
                          [OrderAutoCancelled (o_ID order) (o_OrderNo order) (o_CreatedAt order)]\<rparr>)))"

text \<open>The query of the sweep: pending orders created before the cutoff, at most 100, in
  the order the table yields them.\<close>

definition expiredOrders :: "int \<Rightarrow> Order list \<Rightarrow> Order list" where
  "expiredOrders cutoffTime rows =
     take 100 (filter (\<lambda>r. o_Status r = OrderStatusPendingPayment \<and> o_CreatedAt r < cutoffTime)
                      rows)"

text \<open>The loop over the orders found, carrying \<open>cancelledCount\<close>.\<close>

fun cancelEach ::
  "cancel_call faults \<Rightarrow> OrderCancelService \<Rightarrow> int \<Rightarrow> Order list \<Rightarrow> int \<Rightarrow> cancel_world \<Rightarrow>
   int \<times> cancel_world" where
  "cancelEach flt s hours [] cancelledCount w = (cancelledCount, w)"
| "cancelEach flt s hours (order # rest) cancelledCount w =
     (case cancelOrder flt s order hours w of
        (Some e, w') \<Rightarrow>
          cancelEach flt s hours rest cancelledCount
            (w'\<lparr>cw_logs := cw_logs w' @
                   [''[OrderCancel] Error cancelling order '' @ o_OrderNo order @ '': '' @ e]\<rparr>)
      | (None, w') \<Rightarrow> cancelEach flt s hours rest (cancelledCount + 1) w')"

definition cancelExpiredOrders ::
  "cancel_call faults \<Rightarrow> OrderCancelService \<Rightarrow> int \<Rightarrow> cancel_world \<Rightarrow> cancel_world" where
  "cancelExpiredOrders flt s now w =
     (let autoCancelHours = getAutoCancelHours s;
          cutoffTime = hoursBefore now autoCancelHours;
          w0 = w\<lparr>cw_calls := cw_calls w @ [QueryExpiredOrders]\<rparr>
      in case flt (cw_calls w) QueryExpiredOrders of
           Some e \<Rightarrow> w0\<lparr>cw_logs := cw_logs w0 @
                           [''[OrderCancel] Error querying expired orders: '' @ e]\<rparr>
         | None \<Rightarrow>
             (let found = expiredOrders cutoffTime (cw_orders w)
              in if found = [] then w0
                 else
                   (case cancelEach flt s autoCancelHours found 0 w0 of
                      (cancelledCount, w1) \<Rightarrow>
                        if cancelledCount > 0 then
                          w1\<lparr>cw_oplog := cw_oplog w1 @
                                [OrderAutoCancelSweep cancelledCount autoCancelHours cutoffTime]\<rparr>
                        else w1)))"

subsection \<open>The release calls of an order, for stating what \<open>cancelOrder\<close> attempts\<close>

text \<open>The calls the release phase makes for an order, in the order of the code: one per
  item bound to a static inventory, then virtual stock, promo code and serials as far
  as the collaborator (and the promo code) is present.\<close>

fun itemReleaseCalls :: "Order \<Rightarrow> nat \<Rightarrow> OrderItem list \<Rightarrow> cancel_call list" where
  "itemReleaseCalls order i [] = []"
| "itemReleaseCalls order i (item # rest) =
     (case map_of (o_InventoryBindings order) i of
        Some inventoryID \<Rightarrow>
          if inventoryID > 0
          then [InventoryReleaseReserve inventoryID (oi_Quantity item) (o_OrderNo order)]
          else []
      | None \<Rightarrow> []) @ itemReleaseCalls order (Suc i) rest"

definition releaseCalls :: "OrderCancelService \<Rightarrow> Order \<Rightarrow> cancel_call list" where
  "releaseCalls s order =
     itemReleaseCalls order 0 (o_Items order) @
     (if virtualInventorySvc_set s then [VirtualReleaseStock (o_OrderNo order)] else []) @
     (case o_PromoCodeID order of
        Some promoCodeID \<Rightarrow>
          if promoCodeRepo_set s then [PromoReleaseReserve promoCodeID (o_OrderNo order)] else []
      | None \<Rightarrow> []) @
     (if serialService_set s then [DeleteSerialsByOrderID (o_ID order)] else [])"

text \<open>The line logged when a release call fails with error \<open>e\<close>.\<close>

fun releaseMsg :: "Order \<Rightarrow> cancel_call \<Rightarrow> string \<Rightarrow> string" where
  "releaseMsg order (InventoryReleaseReserve inventoryID q n) e =
     ''[OrderCancel] Order '' @ o_OrderNo order @ '' failed to release inventory '' @
     itoa (int inventoryID) @ '': '' @ e"
| "releaseMsg order (VirtualReleaseStock n) e =
     ''[OrderCancel] Order '' @ o_OrderNo order @ '' failed to release virtual stock: '' @ e"
| "releaseMsg order (PromoReleaseReserve p n) e =
     ''[OrderCancel] Order '' @ o_OrderNo order @ '' failed to release promo code: '' @ e"
| "releaseMsg order (DeleteSerialsByOrderID n) e =
     ''[OrderCancel] Order '' @ o_OrderNo order @ '' failed to delete serials: '' @ e"
| "releaseMsg order c e = e"

text \<open>The lines logged by a sequence of calls made after the calls \<open>cs\<close>: one line for
  each call that fails, none for a call that succeeds.\<close>

fun failureLines ::
  "cancel_call faults \<Rightarrow> Order \<Rightarrow> cancel_call list \<Rightarrow> cancel_call list \<Rightarrow> string list" where
  "failureLines flt order cs [] = []"
| "failureLines flt order cs (c # rest) =
     (case flt cs c of Some e \<Rightarrow> [releaseMsg order c e] | None \<Rightarrow> []) @
     failureLines flt order (cs @ [c]) rest"

text \<open>The number of \<open>order_auto_cancelled\<close> entries written for an order id, and whether a
  row of that id is still pending payment.\<close>

definition cancelledEvents :: "nat \<Rightarrow> cancel_world \<Rightarrow> nat" where
  "cancelledEvents oid w =
     length (filter (\<lambda>e. case e of OrderAutoCancelled i n t \<Rightarrow> i = oid | _ \<Rightarrow> False) (cw_oplog w))"

definition hasPending :: "nat \<Rightarrow> Order list \<Rightarrow> bool" where
  "hasPending oid rows = (rowsAffected oid rows > 0)"

text \<open>A sequence of release calls, each attempted in turn whatever the outcome of the
  ones before it.\<close>

definition attemptAll ::
  "cancel_call faults \<Rightarrow> Order \<Rightarrow> cancel_call list \<Rightarrow> cancel_world \<Rightarrow> cancel_world" where
  "attemptAll flt order cs w = foldl (\<lambda>w c. attempt flt c (releaseMsg order c) w) w cs"

text \<open>What a conditional update may do to one row: leave it, or take it from pending
  payment to cancelled.\<close>

definition rowStep :: "Order \<Rightarrow> Order \<Rightarrow> bool" where
  "rowStep r r' =
     (r' = r \<or>
      (o_Status r = OrderStatusPendingPayment \<and>
       (\<exists>remark. r' = r\<lparr>o_Status := OrderStatusCancelled, o_AdminRemark := remark\<rparr>)))"

definition cancelRemark :: "int \<Rightarrow> string" where
  "cancelRemark hours = ''System auto-cancelled: order unpaid after '' @ itoa hours @ '' hours''"

definition noFaults :: "'c faults" where
  "noFaults = (\<lambda>cs c. None)"

text \<open>The cancellations recorded for an order id, plus one while a row of that id can
  still be cancelled.\<close>

definition cancelBudget :: "nat \<Rightarrow> cancel_world \<Rightarrow> nat" where
  "cancelBudget oid w =
     cancelledEvents oid w + (if hasPending oid (cw_orders w) then 1 else 0)"

section \<open>ticket_auto_close_service.go: the auto-close sweep\<close>

text \<open>
  The ticket, user and message models are not among the sources: the records hold the
  fields the service reads and writes. \<open>t_User\<close> is the association that
  \<open>Preload("User")\<close> fills in; it is not a column.
\<close>

datatype ticket_status =
    TicketStatusOpen
  | TicketStatusProcessing
  | TicketStatusResolved
  | TicketStatusClosed
  | TicketStatusOther string

record User =
  u_ID :: nat
  u_Locale :: string

record Ticket =
  t_ID :: nat
  t_TicketNo :: string
  t_UserID :: nat
  t_User :: "User option"
  t_Status :: ticket_status
  t_ClosedAt :: "int option"
  t_UnreadCountUser :: int
  t_LastMessageAt :: "int option"
  t_LastMessagePreview :: string
  t_LastMessageBy :: string

record TicketMessage =
  tm_TicketID :: nat
  tm_SenderType :: string
  tm_SenderID :: nat
  tm_SenderName :: string
  tm_Content :: string
  tm_ContentType :: string
  tm_IsReadByUser :: bool
  tm_IsReadByAdmin :: bool

datatype ticket_call =
    QueryInactiveTickets
  | BeginTransaction
  | UpdateTicketStatus nat
  | CreateTicketMessage nat
  | UpdateTicketCounters nat
  | CommitTransaction

text \<open>The entry written through \<open>logger.LogSystemOperation\<close> (\<open>ticket_auto_close\<close>: closed
  count, hours, cutoff).\<close>

datatype ticket_op = TicketAutoCloseSweep int int int

record ticket_world =
  tw_tickets :: "Ticket list"
  tw_users :: "User list"
  tw_messages :: "TicketMessage list"
  tw_calls :: "ticket_call list"
  tw_logs :: "string list"
  tw_oplog :: "ticket_op list"

definition activeStatuses :: "ticket_status list" where
  "activeStatuses = [TicketStatusOpen, TicketStatusProcessing, TicketStatusResolved]"

text \<open>The two literals of the Chinese message, as the UTF-8 bytes of the source file.\<close>

definition zhClosedPrefix :: string where
  "zhClosedPrefix =
    [CHR 0xE5, CHR 0xB7, CHR 0xA5, CHR 0xE5, CHR 0x8D, CHR 0x95, CHR 0xE5, CHR 0xB7,
     CHR 0xB2, CHR 0xE8, CHR 0xB6, CHR 0x85, CHR 0xE8, CHR 0xBF, CHR 0x87, CHR 0x20]"

definition zhClosedSuffix :: string where
  "zhClosedSuffix =
    [CHR 0x20, CHR 0xE5, CHR 0xB0, CHR 0x8F, CHR 0xE6, CHR 0x97, CHR 0xB6, CHR 0xE6,
     CHR 0x97, CHR 0xA0, CHR 0xE5, CHR 0x9B, CHR 0x9E, CHR 0xE5, CHR 0xA4, CHR 0x8D,
     CHR 0xEF, CHR 0xBC, CHR 0x8C, CHR 0xE7, CHR 0xB3, CHR 0xBB, CHR 0xE7, CHR 0xBB,
     CHR 0x9F, CHR 0xE8, CHR 0x87, CHR 0xAA, CHR 0xE5, CHR 0x8A, CHR 0xA8, CHR 0xE5,
     CHR 0x85, CHR 0xB3, CHR 0xE9, CHR 0x97, CHR 0xAD, CHR 0xE3, CHR 0x80, CHR 0x82]"

definition ticketAutoCloseMessage :: "User option \<Rightarrow> int \<Rightarrow> string" where
  "ticketAutoCloseMessage user hours =
     (let locale = (case user of Some u \<Rightarrow> u_Locale u | None \<Rightarrow> '''')
      in if locale = ''zh'' then zhClosedPrefix @ itoa hours @ zhClosedSuffix
         else ''Ticket automatically closed after '' @ itoa hours @ '' hours with no reply.'')"

text \<open>
  \<open>db.Transaction(fn)\<close>: the function runs on a transaction; when it returns an error, or
  when the commit fails, the tables are as they were before. The record of calls and
  the log are not part of the database and are kept.
\<close>

definition rollback :: "ticket_world \<Rightarrow> ticket_world \<Rightarrow> ticket_world" where
  "rollback w w' = w'\<lparr>tw_tickets := tw_tickets w, tw_messages := tw_messages w\<rparr>"

definition Transaction ::
  "ticket_call faults \<Rightarrow> (ticket_world \<Rightarrow> string option \<times> ticket_world) \<Rightarrow> ticket_world \<Rightarrow>
   string option \<times> ticket_world" where
  "Transaction flt fn w =
     (let w0 = w\<lparr>tw_calls := tw_calls w @ [BeginTransaction]\<rparr>
      in case flt (tw_calls w) BeginTransaction of
           Some e \<Rightarrow> (Some e, w0)
         | None \<Rightarrow>
             (case fn w0 of
                (Some e, w') \<Rightarrow> (Some e, rollback w w')
              | (None, w') \<Rightarrow>
                  (let w'' = w'\<lparr>tw_calls := tw_calls w' @ [CommitTransaction]\<rparr>
                   in case flt (tw_calls w') CommitTransaction of
                        Some e \<Rightarrow> (Some e, rollback w w'')
                      | None \<Rightarrow> (None, w''))))"

text \<open>The two updates of \<open>closeTicket\<close> on the rows of a ticket id: the conditional status
  flip, with its \<open>RowsAffected\<close>, and the unconditional update of the counters.\<close>

definition ticketRowsAffected :: "nat \<Rightarrow> ticket_status list \<Rightarrow> Ticket list \<Rightarrow> nat" where
  "ticketRowsAffected tid active rows =
     length (filter (\<lambda>r. t_ID r = tid \<and> t_Status r \<in> set active) rows)"

definition closeRows :: "nat \<Rightarrow> ticket_status list \<Rightarrow> int \<Rightarrow> Ticket list \<Rightarrow> Ticket list" where
  "closeRows tid active now rows =
     map (\<lambda>r. if t_ID r = tid \<and> t_Status r \<in> set active
               then r\<lparr>t_Status := TicketStatusClosed, t_ClosedAt := Some now\<rparr> else r) rows"

definition bumpRows :: "nat \<Rightarrow> int \<Rightarrow> string \<Rightarrow> Ticket list \<Rightarrow> Ticket list" where
  "bumpRows tid now preview rows =
     map (\<lambda>r. if t_ID r = tid
               then r\<lparr>t_UnreadCountUser := t_UnreadCountUser r + 1,
                      t_LastMessageAt := Some now,
                      t_LastMessagePreview := preview,
                      t_LastMessageBy := ''admin''\<rparr>
               else r) rows"

definition systemMessage :: "Ticket \<Rightarrow> int \<Rightarrow> TicketMessage" where
  "systemMessage ticket hours =
     \<lparr>tm_TicketID = t_ID ticket, tm_SenderType = ''admin'', tm_SenderID = 0,
      tm_SenderName = ''System'', tm_Content = ticketAutoCloseMessage (t_User ticket) hours,
      tm_ContentType = ''text'', tm_IsReadByUser = False, tm_IsReadByAdmin = True\<rparr>"

definition messagePreview :: "string \<Rightarrow> string" where
  "messagePreview msgContent = (if length msgContent > 200 then take 200 msgContent else msgContent)"

text \<open>The function \<open>closeTicket\<close> passes to the transaction. Its three statements (the
  conditional status update, the creation of the system message, the update of the
  counters) all run on the transaction handle \<open>tx\<close>; it returns at the first error, and
  with nil when the status update affects no row.\<close>

definition closeTicketTx ::
  "ticket_call faults \<Rightarrow> Ticket \<Rightarrow> int \<Rightarrow> int \<Rightarrow> ticket_status list \<Rightarrow> ticket_world \<Rightarrow>
   string option \<times> ticket_world" where
  "closeTicketTx flt ticket autoCloseHours now active tx =
     (let tx0 = tx\<lparr>tw_calls := tw_calls tx @ [UpdateTicketStatus (t_ID ticket)]\<rparr>
      in case flt (tw_calls tx) (UpdateTicketStatus (t_ID ticket)) of
           Some e \<Rightarrow> (Some e, tx0)
         | None \<Rightarrow>
             if ticketRowsAffected (t_ID ticket) active (tw_tickets tx) = 0 then (None, tx0)
             else
               (let tx1 = tx0\<lparr>tw_tickets := closeRows (t_ID ticket) active now (tw_tickets tx),
                               tw_calls := tw_calls tx0 @ [CreateTicketMessage (t_ID ticket)]\<rparr>;
                    msgContent = ticketAutoCloseMessage (t_User ticket) autoCloseHours
                in case flt (tw_calls tx0) (CreateTicketMessage (t_ID ticket)) of
                     Some e \<Rightarrow> (Some e, tx1)
                   | None \<Rightarrow>
                       (let tx2 = tx1\<lparr>tw_messages := tw_messages tx1 @
                                          [systemMessage ticket autoCloseHours],
                                       tw_calls := tw_calls tx1 @
                                          [UpdateTicketCounters (t_ID ticket)]\<rparr>
                        in case flt (tw_calls tx1) (UpdateTicketCounters (t_ID ticket)) of
                             Some e \<Rightarrow> (Some e, tx2)
                           | None \<Rightarrow>
                               (None,
                                tx2\<lparr>tw_tickets :=
                                      bumpRows (t_ID ticket) now (messagePreview msgContent)
                                        (tw_tickets tx2)\<rparr>))))"

definition closeTicket ::
  "ticket_call faults \<Rightarrow> Ticket \<Rightarrow> int \<Rightarrow> int \<Rightarrow> ticket_status list \<Rightarrow> ticket_world \<Rightarrow>
   string option \<times> ticket_world" where
  "closeTicket flt ticket autoCloseHours now active w =
     Transaction flt (closeTicketTx flt ticket autoCloseHours now active) w"

text \<open>The query of the sweep: tickets in an active status whose \<open>last_message_at\<close> is not
  null and before the cutoff, at most 100, each with its user preloaded.\<close>

definition preloadUser :: "User list \<Rightarrow> Ticket \<Rightarrow> Ticket" where
  "preloadUser users t = t\<lparr>t_User := find (\<lambda>u. u_ID u = t_UserID t) users\<rparr>"

definition inactiveTickets :: "int \<Rightarrow> ticket_world \<Rightarrow> Ticket list" where
  "inactiveTickets cutoff w =
     map (preloadUser (tw_users w))
       (take 100
          (filter (\<lambda>t. t_Status t \<in> set activeStatuses \<and>
                       (case t_LastMessageAt t of None \<Rightarrow> False | Some at \<Rightarrow> at < cutoff))
                  (tw_tickets w)))"

text \<open>The loop over the tickets found, carrying \<open>closedCount\<close>.\<close>

fun closeEach ::
  "ticket_call faults \<Rightarrow> int \<Rightarrow> int \<Rightarrow> Ticket list \<Rightarrow> int \<Rightarrow> ticket_world \<Rightarrow>
   int \<times> ticket_world" where
  "closeEach flt hours now [] closedCount w = (closedCount, w)"
| "closeEach flt hours now (ticket # rest) closedCount w =
     (case closeTicket flt ticket hours now activeStatuses w of
        (Some e, w') \<Rightarrow>
          closeEach flt hours now rest closedCount
            (w'\<lparr>tw_logs := tw_logs w' @
                   [''[TicketAutoClose] Error closing ticket '' @ t_TicketNo ticket @ '': '' @ e]\<rparr>)
      | (None, w') \<Rightarrow> closeEach flt hours now rest (closedCount + 1) w')"

text \<open>\<open>closeInactiveTickets\<close>: the configured hours are read on every run; the clock is read
  twice, first for the cutoff and then for \<open>now\<close>.\<close>

definition closeInactiveTickets ::
  "ticket_call faults \<Rightarrow> int \<Rightarrow> int \<Rightarrow> int \<Rightarrow> ticket_world \<Rightarrow> ticket_world" where
  "closeInactiveTickets flt autoCloseHours clock now w =
     (if autoCloseHours \<le> 0 then w
      else
        (let cutoff = hoursBefore clock autoCloseHours;
             w0 = w\<lparr>tw_calls := tw_calls w @ [QueryInactiveTickets]\<rparr>
         in case flt (tw_calls w) QueryInactiveTickets of
              Some e \<Rightarrow> w0\<lparr>tw_logs := tw_logs w0 @
                              [''[TicketAutoClose] Error querying inactive tickets: '' @ e]\<rparr>
            | None \<Rightarrow>
                (let tickets = inactiveTickets cutoff w
                 in if tickets = [] then w0
                    else
                      (case closeEach flt autoCloseHours now tickets 0 w0 of
                         (closedCount, w1) \<Rightarrow>
                           if closedCount > 0 then
                             w1\<lparr>tw_oplog := tw_oplog w1 @
                                   [TicketAutoCloseSweep closedCount autoCloseHours cutoff]\<rparr>
                           else w1))))"

text \<open>What the sweep may do to one row when it processes the ticket ids \<open>S\<close>: a row keeps
  its id, and a row whose id is not in \<open>S\<close> is left as it is.\<close>

definition untouched :: "nat set \<Rightarrow> Ticket \<Rightarrow> Ticket \<Rightarrow> bool" where
  "untouched S r r' = (t_ID r' = t_ID r \<and> (t_ID r \<in> S \<or> r' = r))"

section \<open>script_delivery_service.go: HTTP calls made by a script\<close>

text \<open>
  What \<open>doHTTPRequest\<close> uses and this repository's sources do not hold is a parameter:
  the URL parser and printer, JSON encoding and decoding, \<open>strings.TrimSpace\<close>,
  \<open>strings.EqualFold\<close>, the canonical form of a header key used by \<open>Header.Set\<close>, the
  validity check of \<open>http.NewRequest\<close>, JavaScript's string conversion, and from this
  repository the egress check \<open>validateExternalURL\<close> and the hardened client
  (\<open>newPaymentHTTPClient\<close>, with its redirect policy, dialer and timeouts), which are
  defined in a file that is not among the sources.
\<close>

record http_request =
  rq_Method :: string
  rq_URL :: string
  rq_Body :: "string option"
  rq_Header :: "string \<rightharpoonup> string"

text \<open>A response as the code reads it: status, the \<open>Content-Type\<close> header, the body
  stream, and the error met while reading it, if any.\<close>

record http_response =
  rs_StatusCode :: int
  rs_ContentType :: string
  rs_Body :: string
  rs_ReadError :: "string option"

record 'url http_env =
  url_Parse :: "string \<Rightarrow> string + 'url"
  url_String :: "'url \<Rightarrow> string"
  validateExternalURL :: "'url \<Rightarrow> string option"
  json_Marshal :: "jsval \<Rightarrow> string + string"
  json_Unmarshal :: "string \<Rightarrow> jsval option"
  strings_TrimSpace :: "string \<Rightarrow> string"
  strings_EqualFold :: "string \<Rightarrow> string \<Rightarrow> bool"
  CanonicalMIMEHeaderKey :: "string \<Rightarrow> string"
  NewRequest_error :: "string \<Rightarrow> string \<Rightarrow> string option"
  client_Do :: "http_request \<Rightarrow> string + http_response"
  js_String :: "jsval \<Rightarrow> string"

definition HasPrefix :: "string \<Rightarrow> string \<Rightarrow> bool" where
  "HasPrefix s p = (take (length p) s = p)"

fun Contains :: "string \<Rightarrow> string \<Rightarrow> bool" where
  "Contains [] sub = (sub = [])"
| "Contains (c # cs) sub = (HasPrefix (c # cs) sub \<or> Contains cs sub)"

text \<open>The value handed to the script for a failure: \<open>{error: ..., status: ...}\<close>.\<close>

definition errorResult :: "string \<Rightarrow> int \<Rightarrow> jsval" where
  "errorResult msg status = JSObject [(''error'', JSString msg), (''status'', JSNumber status)]"

text \<open>The request body and the default content type. The exported body is nil for
  \<open>undefined\<close> and \<open>null\<close> (and when the script passes no body).\<close>

definition prepareBody :: "'url http_env \<Rightarrow> jsval \<Rightarrow> string + (string option \<times> string)" where
  "prepareBody env body =
     (case body of
        JSUndefined \<Rightarrow> Inr (None, '''')
      | JSNull \<Rightarrow> Inr (None, '''')
      | JSString v \<Rightarrow>
          Inr (Some v,
               if HasPrefix (strings_TrimSpace env v) ''{'' \<or>
                  HasPrefix (strings_TrimSpace env v) ''[''
               then ''application/json'' else ''text/plain'')
      | v \<Rightarrow>
          (case json_Marshal env v of
             Inl e \<Rightarrow> Inl e
           | Inr jsonBytes \<Rightarrow> Inr (Some jsonBytes, ''application/json'')))"

text \<open>\<open>req.Header.Set(k, v)\<close> stores the value under the canonical form of the key.\<close>

definition Header_Set ::
  "'url http_env \<Rightarrow> (string \<rightharpoonup> string) \<Rightarrow> string \<Rightarrow> string \<Rightarrow> (string \<rightharpoonup> string)" where
  "Header_Set env h k v = h(CanonicalMIMEHeaderKey env k \<mapsto> v)"

text \<open>
  The loop \<open>for k, v := range headers\<close>. The headers of the script are a Go map; the
  list gives its entries in the order in which this run of the loop meets them.
\<close>

fun setScriptHeaders ::
  "'url http_env \<Rightarrow> (string \<times> string) list \<Rightarrow> (string \<rightharpoonup> string) \<Rightarrow> (string \<rightharpoonup> string)" where
  "setScriptHeaders env [] h = h"
| "setScriptHeaders env ((k, v) # rest) h =
     (if strings_EqualFold env k ''Host'' \<or> strings_EqualFold env k ''Proxy-Authorization''
      then setScriptHeaders env rest h
      else setScriptHeaders env rest (Header_Set env h k v))"

definition headerValue :: "(string \<times> string) list \<Rightarrow> string \<Rightarrow> string" where
  "headerValue headers k = (case map_of headers k of Some v \<Rightarrow> v | None \<Rightarrow> '''')"

definition requestHeader ::
  "'url http_env \<Rightarrow> string \<Rightarrow> (string \<times> string) list \<Rightarrow> (string \<rightharpoonup> string)" where
  "requestHeader env contentType headers =
     (let h0 = Header_Set env Map.empty ''User-Agent'' ''AuraLogic-ScriptDelivery/1.0'';
          h1 = (if contentType \<noteq> '''' \<and> headerValue headers ''Content-Type'' = ''''
                then Header_Set env h0 ''Content-Type'' contentType else h0)
      in setScriptHeaders env headers h1)"

definition readResponse :: "'url http_env \<Rightarrow> http_response \<Rightarrow> jsval" where
  "readResponse env resp =
     (case rs_ReadError resp of
        Some e \<Rightarrow> errorResult (''Failed to read response: '' @ e) (rs_StatusCode resp)
      | None \<Rightarrow>
          (let respBody = take (10 * 1024 * 1024) (rs_Body resp);
               jsonData = (if Contains (rs_ContentType resp) ''application/json''
                           then json_Unmarshal env respBody else None)
           in JSObject ([(''status'', JSNumber (rs_StatusCode resp)),
                         (''body'', JSString respBody)] @
                        (case jsonData of Some d \<Rightarrow> [(''data'', d)] | None \<Rightarrow> []))))"

text \<open>\<open>doHTTPRequest\<close>: the value returned to the script, and the requests handed to the
  client so far (\<open>sent\<close>), extended by the request of this call if it gets that far.\<close>

definition doHTTPRequest ::
  "'url http_env \<Rightarrow> string \<Rightarrow> string \<Rightarrow> jsval \<Rightarrow> (string \<times> string) list \<Rightarrow> http_request list \<Rightarrow>
   jsval \<times> http_request list" where
  "doHTTPRequest env method urlStr body headers sent =
     (case url_Parse env urlStr of
        Inl e \<Rightarrow> (errorResult (''Invalid URL: '' @ e) 0, sent)
      | Inr parsedURL \<Rightarrow>
          (case validateExternalURL env parsedURL of
             Some e \<Rightarrow> (errorResult ''URL is not allowed'' 0, sent)
           | None \<Rightarrow>
               (case prepareBody env body of
                  Inl e \<Rightarrow> (errorResult (''Failed to encode body: '' @ e) 0, sent)
                | Inr (reqBody, contentType) \<Rightarrow>
                    (case NewRequest_error env method (url_String env parsedURL) of
                       Some e \<Rightarrow> (errorResult (''Failed to create request: '' @ e) 0, sent)
                     | None \<Rightarrow>
                         (let req = \<lparr>rq_Method = method, rq_URL = url_String env parsedURL,
                                     rq_Body = reqBody,
                                     rq_Header = requestHeader env contentType headers\<rparr>
                          in case client_Do env req of
                               Inl e \<Rightarrow> (errorResult (''Request failed: '' @ e) 0, sent @ [req])
                             | Inr resp \<Rightarrow> (readResponse env resp, sent @ [req]))))))"

text \<open>
  The functions registered as \<open>AuraLogic.http.get\<close>, \<open>post\<close> and \<open>request\<close>. A registered
  function either returns a value to the script or, if it panicked, would throw into
  it; \<open>args\<close> are the arguments of the call.
\<close>

datatype host_return = Returns jsval | Throws string

definition extractHeaders :: "jsval list \<Rightarrow> nat \<Rightarrow> (string \<times> string) list" where
  "extractHeaders args idx =
     (if length args > idx then
        (case args ! idx of
           JSObject h \<Rightarrow>
             List.map_filter
               (\<lambda>(k, v). case v of JSString str \<Rightarrow> Some (k, str) | _ \<Rightarrow> None) h
         | _ \<Rightarrow> [])
      else [])"

definition http_get ::
  "'url http_env \<Rightarrow> jsval list \<Rightarrow> http_request list \<Rightarrow> host_return \<times> http_request list" where
  "http_get env args sent =
     (if length args < 1 then (Returns (errorResult ''URL is required'' 0), sent)
      else
        (case doHTTPRequest env ''GET'' (js_String env (args ! 0)) JSUndefined
                (extractHeaders args 1) sent of
           (v, sent') \<Rightarrow> (Returns v, sent')))"

definition http_post ::
  "'url http_env \<Rightarrow> jsval list \<Rightarrow> http_request list \<Rightarrow> host_return \<times> http_request list" where
  "http_post env args sent =
     (if length args < 1 then (Returns (errorResult ''URL is required'' 0), sent)
      else
        (case doHTTPRequest env ''POST'' (js_String env (args ! 0))
                (if length args > 1 then args ! 1 else JSUndefined)
                (extractHeaders args 2) sent of
           (v, sent') \<Rightarrow> (Returns v, sent')))"

definition http_request ::
  "'url http_env \<Rightarrow> jsval list \<Rightarrow> http_request list \<Rightarrow> host_return \<times> http_request list" where
  "http_request env args sent =
     (if length args < 2
      then (Returns (errorResult ''method and URL are required'' 0), sent)
      else
        (case doHTTPRequest env (js_String env (args ! 0)) (js_String env (args ! 1))
                (if length args > 2 then args ! 2 else JSUndefined)
                (extractHeaders args 3) sent of
           (v, sent') \<Rightarrow> (Returns v, sent')))"

text \<open>The headers the loop skips, and two header maps that differ only in them.\<close>

definition droppedKey :: "'url http_env \<Rightarrow> string \<Rightarrow> bool" where
  "droppedKey env k =
     (strings_EqualFold env k ''Host'' \<or> strings_EqualFold env k ''Proxy-Authorization'')"

definition keptHeaders :: "'url http_env \<Rightarrow> (string \<times> string) list \<Rightarrow> (string \<times> string) list" where
  "keptHeaders env headers = filter (\<lambda>(k, v). \<not> droppedKey env k) headers"

text \<open>An environment for examples: ASCII case folding, identity parsing, a validation
  that rejects the loopback and link-local hosts, and a client that answers 200.\<close>

definition asciiLower :: "char \<Rightarrow> char" where
  "asciiLower c =
     (case map_of (zip ''ABCDEFGHIJKLMNOPQRSTUVWXYZ'' ''abcdefghijklmnopqrstuvwxyz'') c of
        Some l \<Rightarrow> l
      | None \<Rightarrow> c)"

definition asciiEqualFold :: "string \<Rightarrow> string \<Rightarrow> bool" where
  "asciiEqualFold a b = (map asciiLower a = map asciiLower b)"

definition exampleEnv :: "string http_env" where
  "exampleEnv =
     \<lparr>url_Parse = Inr, url_String = (\<lambda>u. u),
      validateExternalURL =
        (\<lambda>u. if HasPrefix u ''http://127.0.0.1'' \<or> HasPrefix u ''http://169.254.169.254''
              then Some ''address not allowed'' else None),
      json_Marshal = (\<lambda>v. Inr ''{}''), json_Unmarshal = (\<lambda>s. None),
      strings_TrimSpace = (\<lambda>s. s), strings_EqualFold = asciiEqualFold,
      CanonicalMIMEHeaderKey = (\<lambda>k. k), NewRequest_error = (\<lambda>m u. None),
      client_Do = (\<lambda>r. Inr \<lparr>rs_StatusCode = 200, rs_ContentType = ''text/plain'',
                             rs_Body = ''ok'', rs_ReadError = None\<rparr>),
      js_String = (\<lambda>v. case v of JSString s \<Rightarrow> s | _ \<Rightarrow> ''undefined'')\<rparr>"

section \<open>Example data\<close>

text \<open>
  A ledger with the two kinds of order of the migration: order \<open>LEGACY\<close> holds one
  reserved placeholder of script pool 1 (and a reserved row of the static pool 2, which
  does not count); order \<open>NEW\<close> is bound to pool 1 for three units, one of them already
  sold.
\<close>

definition exampleLedger :: Ledger where
  "exampleLedger =
     \<lparr>pools = [\<lparr>pool_id = 1, pool_kind = Script, sold_count = 1\<rparr>,
               \<lparr>pool_id = 2, pool_kind = Static, sold_count = 0\<rparr>],
      stock = [\<lparr>si_pool = 1, si_content = '''', si_remark = '''', si_status = Reserved,
                si_order = Some ''LEGACY''\<rparr>,
               \<lparr>si_pool = 2, si_content = ''K2'', si_remark = '''', si_status = Reserved,
                si_order = Some ''LEGACY''\<rparr>,
               \<lparr>si_pool = 1, si_content = ''K1'', si_remark = '''', si_status = Sold,
                si_order = Some ''NEW''\<rparr>],
      bindings = [\<lparr>b_order = ''NEW'', b_item = 0, b_pool = 1, b_quantity = 3\<rparr>]\<rparr>"

text \<open>An orders table with one order pending payment since time 0 (two items, the first
  bound to inventory 5, promo code 9) and one completed order; a service with every
  collaborator set; and a fault function under which the release of virtual stock
  fails.\<close>

definition exampleOrder :: Order where
  "exampleOrder =
     \<lparr>o_ID = 1, o_OrderNo = ''ORD-1'', o_Status = OrderStatusPendingPayment,
      o_AdminRemark = '''', o_CreatedAt = 0,
      o_Items = [\<lparr>oi_Quantity = 2\<rparr>, \<lparr>oi_Quantity = 1\<rparr>],
      o_InventoryBindings = [(0, 5)], o_PromoCodeID = Some 9\<rparr>"

definition exampleCompletedOrder :: Order where
  "exampleCompletedOrder =
     \<lparr>o_ID = 2, o_OrderNo = ''ORD-2'', o_Status = OrderStatusCompleted,
      o_AdminRemark = '''', o_CreatedAt = 0, o_Items = [], o_InventoryBindings = [],
      o_PromoCodeID = None\<rparr>"

definition exampleOrders :: cancel_world where
  "exampleOrders =
     \<lparr>cw_orders = [exampleOrder, exampleCompletedOrder], cw_calls = [], cw_logs = [],
      cw_oplog = []\<rparr>"

definition exampleService :: "int \<Rightarrow> OrderCancelService" where
  "exampleService hours =
     \<lparr>cfg_AutoCancelHours = hours, virtualInventorySvc_set = True, promoCodeRepo_set = True,
      serialService_set = True\<rparr>"

definition virtualStockDown :: "cancel_call faults" where
  "virtualStockDown = (\<lambda>cs c. if c = VirtualReleaseStock ''ORD-1'' then Some ''db down'' else None)"

text \<open>A time 300000 seconds after time 0, in nanoseconds: more than 72 hours.\<close>

definition exampleNow :: int where
  "exampleNow = 300000000000000"

text \<open>Tickets of a user with locale \<open>zh\<close>: one open with a last message at time 0, the
  same ticket already closed, and an open ticket that never had a message.\<close>

definition exampleUser :: User where
  "exampleUser = \<lparr>u_ID = 1, u_Locale = ''zh''\<rparr>"

definition exampleTicket :: "nat \<Rightarrow> ticket_status \<Rightarrow> int option \<Rightarrow> Ticket" where
  "exampleTicket tid status lastMessageAt =
     \<lparr>t_ID = tid, t_TicketNo = ''T'', t_UserID = 1, t_User = None, t_Status = status,
      t_ClosedAt = None, t_UnreadCountUser = 0, t_LastMessageAt = lastMessageAt,
      t_LastMessagePreview = '''', t_LastMessageBy = ''user''\<rparr>"

definition exampleTickets :: "Ticket list \<Rightarrow> ticket_world" where
  "exampleTickets rows =
     \<lparr>tw_tickets = rows, tw_users = [exampleUser], tw_messages = [], tw_calls = [],
      tw_logs = [], tw_oplog = []\<rparr>"

section \<open>The delivery result: accepted and rejected script outputs\<close>

lemma parseItem_Some_iff:
  "(\<exists>it. parseItem v = Some it) =
   (\<exists>im c. v = JSObject im \<and> map_of im ''content'' = Some (JSString c) \<and> c \<noteq> '''')"
proof (cases v)
  case (JSObject im)
  show ?thesis
  proof (cases "asString (map_of im ''content'')")
    case None
    then show ?thesis using JSObject by auto
  next
    case (Some c)
    then have "map_of im ''content'' = Some (JSString c)"
      by (cases "map_of im ''content''" rule: asString.cases) auto
    then show ?thesis using JSObject Some by (auto simp: Let_def)
  qed
qed auto

lemma map_filter_nonempty_iff:
  "(List.map_filter f xs \<noteq> []) = (\<exists>x \<in> set xs. \<exists>y. f x = Some y)"
  by (induction xs) (auto simp: List.map_filter_simps split: option.splits)

lemma parseItems_nonempty_iff:
  "(parseItems field \<noteq> []) =
   (\<exists>arr im c. field = Some (JSArray arr) \<and> JSObject im \<in> set arr \<and>
      map_of im ''content'' = Some (JSString c) \<and> c \<noteq> '''')"
proof (cases field rule: parseItems.cases)
  case (1 arr)
  have "(parseItems field \<noteq> []) = (\<exists>x \<in> set arr. \<exists>y. parseItem x = Some y)"
    using 1 by (simp add: map_filter_nonempty_iff)
  also have "\<dots> = (\<exists>x \<in> set arr. \<exists>im c. x = JSObject im \<and>
                      map_of im ''content'' = Some (JSString c) \<and> c \<noteq> '''')"
    using parseItem_Some_iff by simp
  finally show ?thesis using 1 by auto
qed auto

lemma parseDeliveryResult_success:
  assumes "map_of obj ''success'' = Some (JSBool True)"
  shows "parseDeliveryResult (Some (JSObject obj)) q =
     (let items = parseItems (map_of obj ''items'');
          res = \<lparr>Success = True, Items = items,
                 Message = (case asString (map_of obj ''message'') of Some m \<Rightarrow> m | None \<Rightarrow> '''')\<rparr>
      in if items = [] then
           \<lparr>po_result = Some res, po_err = Some ''script returned no delivery items'', po_log = []\<rparr>
         else
           \<lparr>po_result = Some res, po_err = None,
            po_log = (if int (length items) \<noteq> q
                      then [''[ScriptDelivery] Warning: expected '' @ itoa q @
                            '' items, got '' @ itoa (int (length items))]
                      else [])\<rparr>)"
  using assms by (simp add: Let_def)

lemma parseDeliveryResult_not_success:
  assumes "map_of obj ''success'' \<noteq> Some (JSBool True)"
  shows "parseDeliveryResult (Some (JSObject obj)) q =
     (let m = (case asString (map_of obj ''message'') of Some m \<Rightarrow> m | None \<Rightarrow> '''')
      in \<lparr>po_result = Some \<lparr>Success = False, Items = [], Message = m\<rparr>,
          po_err = Some (''script delivery failed: '' @
                         (if m = '''' then ''script delivery failed'' else m)),
          po_log = []\<rparr>)"
proof -
  have "(case asBool (map_of obj ''success'') of Some b \<Rightarrow> b | None \<Rightarrow> False) = False"
    using assms by (cases "map_of obj ''success''" rule: asBool.cases) auto
  then show ?thesis by (simp add: Let_def)
qed

lemma ExecuteDeliveryScript_returned:
  assumes "vi_Script inventory \<noteq> ''''"
      and "vm inventory order quantity = OnDeliverReturned res"
  shows "ExecuteDeliveryScript vm inventory order quantity = parseDeliveryResult res quantity"
  using assms by (simp add: ExecuteDeliveryScript_def)

text \<open>
  C1. For a script return value with \<open>success = true\<close>, \<open>parseDeliveryResult\<close> accepts
  (returns a nil error) exactly when the \<open>items\<close> array holds at least one object whose
  \<open>content\<close> is a non-empty string, that is, when at least one item remains after
  filtering. The only error it can return is "no delivery items". The expected quantity
  decides neither the error nor the returned result, which carries every remaining
  item: a count that differs from the expected quantity only adds the warning line to
  the log.
\<close>

theorem parseDeliveryResult_accepts_iff_valid_item:
  assumes "map_of obj ''success'' = Some (JSBool True)"
  shows "(po_err (parseDeliveryResult (Some (JSObject obj)) expectedQty) = None) =
           (\<exists>arr im c. map_of obj ''items'' = Some (JSArray arr) \<and> JSObject im \<in> set arr \<and>
              map_of im ''content'' = Some (JSString c) \<and> c \<noteq> '''')
       \<and> (po_err (parseDeliveryResult (Some (JSObject obj)) expectedQty) = None) =
           (parseItems (map_of obj ''items'') \<noteq> [])
       \<and> (po_err (parseDeliveryResult (Some (JSObject obj)) expectedQty) \<noteq> None) =
           (po_err (parseDeliveryResult (Some (JSObject obj)) expectedQty) =
              Some ''script returned no delivery items'')
       \<and> po_err (parseDeliveryResult (Some (JSObject obj)) expectedQty) =
           po_err (parseDeliveryResult (Some (JSObject obj)) otherQty)
       \<and> po_result (parseDeliveryResult (Some (JSObject obj)) expectedQty) =
           Some \<lparr>Success = True, Items = parseItems (map_of obj ''items''),
                 Message = (case asString (map_of obj ''message'') of Some m \<Rightarrow> m | None \<Rightarrow> '''')\<rparr>
       \<and> po_log (parseDeliveryResult (Some (JSObject obj)) expectedQty) =
           (if parseItems (map_of obj ''items'') \<noteq> [] \<and>
               int (length (parseItems (map_of obj ''items''))) \<noteq> expectedQty
            then [''[ScriptDelivery] Warning: expected '' @ itoa expectedQty @ '' items, got '' @
                  itoa (int (length (parseItems (map_of obj ''items''))))]
            else [])"
proof -
  let ?items = "parseItems (map_of obj ''items'')"
  have acc: "(po_err (parseDeliveryResult (Some (JSObject obj)) q) = None) = (?items \<noteq> [])" for q
    unfolding parseDeliveryResult_success [OF assms] by (simp add: Let_def)
  have shape: "(?items \<noteq> []) =
      (\<exists>arr im c. map_of obj ''items'' = Some (JSArray arr) \<and> JSObject im \<in> set arr \<and>
         map_of im ''content'' = Some (JSString c) \<and> c \<noteq> '''')"
    by (rule parseItems_nonempty_iff)
  have only: "(po_err (parseDeliveryResult (Some (JSObject obj)) expectedQty) \<noteq> None) =
      (po_err (parseDeliveryResult (Some (JSObject obj)) expectedQty) =
         Some ''script returned no delivery items'')"
    unfolding parseDeliveryResult_success [OF assms] by (simp add: Let_def)
  have indep: "po_err (parseDeliveryResult (Some (JSObject obj)) expectedQty) =
      po_err (parseDeliveryResult (Some (JSObject obj)) otherQty)"
    unfolding parseDeliveryResult_success [OF assms] by (simp add: Let_def)
  have res: "po_result (parseDeliveryResult (Some (JSObject obj)) expectedQty) =
      Some \<lparr>Success = True, Items = ?items,
            Message = (case asString (map_of obj ''message'') of Some m \<Rightarrow> m | None \<Rightarrow> '''')\<rparr>"
    unfolding parseDeliveryResult_success [OF assms] by (simp add: Let_def)
  have lg: "po_log (parseDeliveryResult (Some (JSObject obj)) expectedQty) =
      (if ?items \<noteq> [] \<and> int (length ?items) \<noteq> expectedQty
       then [''[ScriptDelivery] Warning: expected '' @ itoa expectedQty @ '' items, got '' @
             itoa (int (length ?items))]
       else [])"
    unfolding parseDeliveryResult_success [OF assms] by (simp add: Let_def)
  have first: "(po_err (parseDeliveryResult (Some (JSObject obj)) expectedQty) = None) =
      (\<exists>arr im c. map_of obj ''items'' = Some (JSArray arr) \<and> JSObject im \<in> set arr \<and>
         map_of im ''content'' = Some (JSString c) \<and> c \<noteq> '''')"
    using acc [of expectedQty] shape by simp
  show ?thesis
    by (intro conjI first acc only indep res lg)
qed

theorem parseDeliveryResult_accepts_iff_valid_item_witness:
  "map_of [(''success'', JSBool True),
           (''items'', JSArray [JSObject [(''content'', JSString ''A'')]])] ''success'' =
     Some (JSBool True)
   \<and> po_err (parseDeliveryResult
        (Some (JSObject [(''success'', JSBool True),
                         (''items'', JSArray [JSObject [(''content'', JSString ''A'')]])])) 3) = None
   \<and> po_result (parseDeliveryResult
        (Some (JSObject [(''success'', JSBool True),
                         (''items'', JSArray [JSObject [(''content'', JSString ''A'')]])])) 3) =
       Some \<lparr>Success = True, Items = [\<lparr>Content = ''A'', Remark = ''''\<rparr>], Message = ''''\<rparr>
   \<and> po_log (parseDeliveryResult
        (Some (JSObject [(''success'', JSBool True),
                         (''items'', JSArray [JSObject [(''content'', JSString ''A'')]])])) 3) =
       [''[ScriptDelivery] Warning: expected 3 items, got 1'']"
  using parseDeliveryResult_accepts_iff_valid_item
    [of "[(''success'', JSBool True),
          (''items'', JSArray [JSObject [(''content'', JSString ''A'')]])]" 3 3]
  by (simp add: List.map_filter_simps itoa_def natToDec.simps digits10_def)

text \<open>
  C3. When \<open>onDeliver\<close> returns an object whose \<open>success\<close> is not the boolean \<open>true\<close>
  (false, absent, or of another type), the attempt fails: the error is
  "script delivery failed: " followed by the script's \<open>message\<close>, or by the generic
  "script delivery failed" when the message is empty or absent; the result handed back
  carries the message and no item; and the delivery of the pool returns that error and
  leaves the ledger as it was, so no stock row is created.
\<close>

theorem failed_script_creates_no_stock:
  assumes "map_of obj ''success'' \<noteq> Some (JSBool True)"
      and "vi_Script inventory \<noteq> ''''"
      and "vm inventory order quantity = OnDeliverReturned (Some (JSObject obj))"
  shows "po_err (ExecuteDeliveryScript vm inventory order quantity) =
           Some (''script delivery failed: '' @
                 (case asString (map_of obj ''message'') of
                    Some m \<Rightarrow> if m = '''' then ''script delivery failed'' else m
                  | None \<Rightarrow> ''script delivery failed''))
       \<and> po_result (ExecuteDeliveryScript vm inventory order quantity) =
           Some \<lparr>Success = False, Items = [],
                 Message = (case asString (map_of obj ''message'') of Some m \<Rightarrow> m | None \<Rightarrow> '''')\<rparr>
       \<and> ExecuteDeliveryScript vm inventory order quantity =
           parseDeliveryResult (Some (JSObject obj)) quantity
       \<and> deliverScriptPool vm l inventory order orderNo quantity =
           (po_err (ExecuteDeliveryScript vm inventory order quantity), l)
       \<and> stock (snd (deliverScriptPool vm l inventory order orderNo quantity)) = stock l"
proof -
  have run: "ExecuteDeliveryScript vm inventory order quantity =
      parseDeliveryResult (Some (JSObject obj)) quantity"
    using assms(2,3) by (rule ExecuteDeliveryScript_returned)
  have err: "po_err (parseDeliveryResult (Some (JSObject obj)) quantity) =
      Some (''script delivery failed: '' @
            (case asString (map_of obj ''message'') of
               Some m \<Rightarrow> if m = '''' then ''script delivery failed'' else m
             | None \<Rightarrow> ''script delivery failed''))"
    unfolding parseDeliveryResult_not_success [OF assms(1)]
    by (simp add: Let_def split: option.splits)
  have res: "po_result (parseDeliveryResult (Some (JSObject obj)) quantity) =
      Some \<lparr>Success = False, Items = [],
            Message = (case asString (map_of obj ''message'') of Some m \<Rightarrow> m | None \<Rightarrow> '''')\<rparr>"
    unfolding parseDeliveryResult_not_success [OF assms(1)] by (simp add: Let_def)
  have pool: "deliverScriptPool vm l inventory order orderNo quantity =
      (po_err (ExecuteDeliveryScript vm inventory order quantity), l)"
    unfolding deliverScriptPool_def Let_def run err by simp
  show ?thesis using run err res pool by simp
qed

theorem failed_script_creates_no_stock_witness:
  "map_of [(''success'', JSBool False), (''message'', JSString ''no stock'')] ''success'' \<noteq>
     Some (JSBool True)
   \<and> vi_Script \<lparr>vi_ID = 7, vi_Script = ''function onDeliver(o, c) { return r }'',
                 vi_ScriptConfig = ''''\<rparr> \<noteq> ''''
   \<and> po_err (ExecuteDeliveryScript
        (\<lambda>i (ord :: unit) q. OnDeliverReturned
           (Some (JSObject [(''success'', JSBool False), (''message'', JSString ''no stock'')])))
        \<lparr>vi_ID = 7, vi_Script = ''function onDeliver(o, c) { return r }'', vi_ScriptConfig = ''''\<rparr>
        () 2) = Some ''script delivery failed: no stock''
   \<and> deliverScriptPool
        (\<lambda>i (ord :: unit) q. OnDeliverReturned
           (Some (JSObject [(''success'', JSBool False), (''message'', JSString ''no stock'')])))
        \<lparr>pools = [\<lparr>pool_id = 7, pool_kind = Script, sold_count = 0\<rparr>], stock = [], bindings = []\<rparr>
        \<lparr>vi_ID = 7, vi_Script = ''function onDeliver(o, c) { return r }'', vi_ScriptConfig = ''''\<rparr>
        () ''ORD-1'' 2 =
       (Some ''script delivery failed: no stock'',
        \<lparr>pools = [\<lparr>pool_id = 7, pool_kind = Script, sold_count = 0\<rparr>], stock = [], bindings = []\<rparr>)"
  using failed_script_creates_no_stock
    [of "[(''success'', JSBool False), (''message'', JSString ''no stock'')]"
        "\<lparr>vi_ID = 7, vi_Script = ''function onDeliver(o, c) { return r }'', vi_ScriptConfig = ''''\<rparr>"
        "\<lambda>i (ord :: unit) q. OnDeliverReturned
           (Some (JSObject [(''success'', JSBool False), (''message'', JSString ''no stock'')]))"
        "()" 2
        "\<lparr>pools = [\<lparr>pool_id = 7, pool_kind = Script, sold_count = 0\<rparr>], stock = [], bindings = []\<rparr>"
        "''ORD-1''"]
  by (simp add: Let_def ExecuteDeliveryScript_def deliverScriptPool_def)

section \<open>Pending delivery quantity: the two paths\<close>

lemma sum_by_key:
  fixes g :: "'a \<Rightarrow> int"
  assumes "finite K"
  shows "(\<Sum>k\<in>K. sum_list (map g (filter (\<lambda>x. f x = k) xs))) =
         sum_list (map g (filter (\<lambda>x. f x \<in> K) xs))"
proof (induction xs)
  case Nil
  show ?case by simp
next
  case (Cons x xs)
  have split: "(\<Sum>k\<in>K. sum_list (map g (filter (\<lambda>y. f y = k) (x # xs)))) =
      (\<Sum>k\<in>K. (if f x = k then g x else 0)) +
      (\<Sum>k\<in>K. sum_list (map g (filter (\<lambda>y. f y = k) xs)))"
  proof -
    have "(\<Sum>k\<in>K. sum_list (map g (filter (\<lambda>y. f y = k) (x # xs)))) =
        (\<Sum>k\<in>K. (if f x = k then g x else 0) +
                  sum_list (map g (filter (\<lambda>y. f y = k) xs)))"
      by (intro sum.cong) auto
    then show ?thesis by (simp add: sum.distrib)
  qed
  have "(\<Sum>k\<in>K. (if f x = k then g x else 0)) = (if f x \<in> K then g x else 0)"
    using assms by (simp add: sum.delta')
  then show ?case using split Cons.IH by simp
qed

lemma PendingFor_sum:
  "sum_list (map snd (PendingFor l ord)) =
   (\<Sum>p \<in> b_pool ` {b \<in> set (bindings l). b_order b = ord}.
      boundQuantity l ord p - soldQuantity l ord p)"
proof -
  have "sum_list (map snd (PendingFor l ord)) =
      sum_list (map (\<lambda>p. boundQuantity l ord p - soldQuantity l ord p) (boundPools l ord))"
    by (simp add: PendingFor_def comp_def)
  also have "\<dots> = (\<Sum>p \<in> set (boundPools l ord). boundQuantity l ord p - soldQuantity l ord p)"
    by (rule sum_list_distinct_conv_sum_set) (simp add: boundPools_def)
  also have "set (boundPools l ord) = b_pool ` {b \<in> set (bindings l). b_order b = ord}"
    by (auto simp: boundPools_def)
  finally show ?thesis .
qed

lemma bound_total:
  "(\<Sum>p \<in> b_pool ` {b \<in> set (bindings l). b_order b = ord}. boundQuantity l ord p) =
   sum_list (map b_quantity (filter (\<lambda>b. b_order b = ord) (bindings l)))"
proof -
  let ?bs = "filter (\<lambda>b. b_order b = ord) (bindings l)"
  let ?B = "b_pool ` {b \<in> set (bindings l). b_order b = ord}"
  have bq: "boundQuantity l ord p = sum_list (map b_quantity (filter (\<lambda>b. b_pool b = p) ?bs))" for p
    by (simp add: boundQuantity_def conj_commute)
  have "(\<Sum>p \<in> ?B. boundQuantity l ord p) =
      sum_list (map b_quantity (filter (\<lambda>b. b_pool b \<in> ?B) ?bs))"
    unfolding bq by (rule sum_by_key) simp
  also have "filter (\<lambda>b. b_pool b \<in> ?B) ?bs = ?bs"
    by (rule filter_True) auto
  finally show ?thesis .
qed

lemma sold_total:
  "(\<Sum>p \<in> b_pool ` {b \<in> set (bindings l). b_order b = ord}. soldQuantity l ord p) =
   int (length (filter (\<lambda>s. si_status s = Sold \<and> si_order s = Some ord \<and>
                             si_pool s \<in> b_pool ` {b \<in> set (bindings l). b_order b = ord})
                       (stock l)))"
proof -
  let ?ss = "filter (\<lambda>s. si_status s = Sold \<and> si_order s = Some ord) (stock l)"
  let ?B = "b_pool ` {b \<in> set (bindings l). b_order b = ord}"
  have sq: "soldQuantity l ord p =
      sum_list (map (\<lambda>s. 1) (filter (\<lambda>s. si_pool s = p) ?ss))" for p
    by (simp add: soldQuantity_def sum_list_triv conj_commute conj_left_commute)
  have "(\<Sum>p \<in> ?B. soldQuantity l ord p) =
      sum_list (map (\<lambda>s. 1) (filter (\<lambda>s. si_pool s \<in> ?B) ?ss))"
    unfolding sq by (rule sum_by_key) simp
  also have "\<dots> = int (length (filter (\<lambda>s. si_pool s \<in> ?B) ?ss))"
    by (simp add: sum_list_triv)
  also have "filter (\<lambda>s. si_pool s \<in> ?B) ?ss =
      filter (\<lambda>s. si_status s = Sold \<and> si_order s = Some ord \<and> si_pool s \<in> ?B) (stock l)"
    by (simp add: conj_commute conj_left_commute)
  finally show ?thesis .
qed

text \<open>
  C2. \<open>PendingDeliveryQuantity(order)\<close> is the number of reserved stock rows of script
  pools that carry the order reference (legacy path) plus, summed over the pools bound
  to the order, the bound quantity minus the quantity already sold for the order
  (current path). The current path is therefore the total quantity bound by the order
  minus the number of its sold rows in bound pools.
\<close>

theorem PendingDeliveryQuantity_dual_path:
  "PendingDeliveryQuantity l ord =
     int (length (filter (\<lambda>s. si_status s = Reserved \<and> isScriptPool l (si_pool s) \<and>
                               si_order s = Some ord) (stock l)))
     + (\<Sum>p \<in> b_pool ` {b \<in> set (bindings l). b_order b = ord}.
          boundQuantity l ord p - soldQuantity l ord p)
   \<and> PendingDeliveryQuantity l ord =
     int (length (legacyReserved l ord))
     + (sum_list (map b_quantity (filter (\<lambda>b. b_order b = ord) (bindings l)))
        - int (length (filter (\<lambda>s. si_status s = Sold \<and> si_order s = Some ord \<and>
                                    si_pool s \<in> b_pool ` {b \<in> set (bindings l). b_order b = ord})
                              (stock l))))"
proof
  show first: "PendingDeliveryQuantity l ord =
     int (length (filter (\<lambda>s. si_status s = Reserved \<and> isScriptPool l (si_pool s) \<and>
                               si_order s = Some ord) (stock l)))
     + (\<Sum>p \<in> b_pool ` {b \<in> set (bindings l). b_order b = ord}.
          boundQuantity l ord p - soldQuantity l ord p)"
    by (simp add: PendingDeliveryQuantity_def legacyReserved_def PendingFor_sum)
  show "PendingDeliveryQuantity l ord =
     int (length (legacyReserved l ord))
     + (sum_list (map b_quantity (filter (\<lambda>b. b_order b = ord) (bindings l)))
        - int (length (filter (\<lambda>s. si_status s = Sold \<and> si_order s = Some ord \<and>
                                    si_pool s \<in> b_pool ` {b \<in> set (bindings l). b_order b = ord})
                              (stock l))))"
    unfolding first legacyReserved_def sum_subtractf bound_total sold_total by simp
qed

theorem PendingDeliveryQuantity_dual_path_witness:
  "PendingDeliveryQuantity exampleLedger ''NEW'' = 2
   \<and> PendingDeliveryQuantity exampleLedger ''LEGACY'' = 1"
  using PendingDeliveryQuantity_dual_path
      [of exampleLedger "''NEW''", unfolded set_filter [symmetric] image_set]
    PendingDeliveryQuantity_dual_path
      [of exampleLedger "''LEGACY''", unfolded set_filter [symmetric] image_set]
  by (simp add: exampleLedger_def legacyReserved_def isScriptPool_def boundQuantity_def
      soldQuantity_def)

section \<open>The auto-cancel sweep: conditional update and release\<close>

lemma attempt_simps:
  "cw_orders (attempt flt c m w) = cw_orders w"
  "cw_oplog (attempt flt c m w) = cw_oplog w"
  "cw_calls (attempt flt c m w) = cw_calls w @ [c]"
  "cw_logs (attempt flt c m w) =
     cw_logs w @ (case flt (cw_calls w) c of Some e \<Rightarrow> [m e] | None \<Rightarrow> [])"
  by (simp_all add: attempt_def split: option.splits)

lemma attemptAll_simps:
  "attemptAll flt order [] w = w"
  "attemptAll flt order (c # cs) w = attemptAll flt order cs (attempt flt c (releaseMsg order c) w)"
  "attemptAll flt order (cs @ ds) w = attemptAll flt order ds (attemptAll flt order cs w)"
  by (simp_all add: attemptAll_def)

lemma attemptAll_fields:
  "cw_orders (attemptAll flt order cs w) = cw_orders w"
  "cw_oplog (attemptAll flt order cs w) = cw_oplog w"
  "cw_calls (attemptAll flt order cs w) = cw_calls w @ cs"
  "cw_logs (attemptAll flt order cs w) = cw_logs w @ failureLines flt order (cw_calls w) cs"
  by (induction cs arbitrary: w; simp add: attemptAll_simps attempt_simps)+

lemma releaseMsg_fun:
  "releaseMsg order (InventoryReleaseReserve inventoryID q n) =
     (\<lambda>e. ''[OrderCancel] Order '' @ o_OrderNo order @ '' failed to release inventory '' @
           itoa (int inventoryID) @ '': '' @ e)"
  "releaseMsg order (VirtualReleaseStock n) =
     (\<lambda>e. ''[OrderCancel] Order '' @ o_OrderNo order @ '' failed to release virtual stock: '' @ e)"
  "releaseMsg order (PromoReleaseReserve p n) =
     (\<lambda>e. ''[OrderCancel] Order '' @ o_OrderNo order @ '' failed to release promo code: '' @ e)"
  "releaseMsg order (DeleteSerialsByOrderID k) =
     (\<lambda>e. ''[OrderCancel] Order '' @ o_OrderNo order @ '' failed to delete serials: '' @ e)"
  by (rule ext, simp)+

lemma releaseItems_attemptAll:
  "releaseItems flt order i items w = attemptAll flt order (itemReleaseCalls order i items) w"
  by (induction items arbitrary: i w) (simp_all add: attemptAll_simps releaseMsg_fun split: option.splits)

lemma release_phase:
  "deleteSerials flt s order (releasePromo flt s order (releaseVirtual flt s order
     (releaseItems flt order 0 (o_Items order) w))) = attemptAll flt order (releaseCalls s order) w"
  by (simp add: releaseCalls_def releaseItems_attemptAll attemptAll_simps deleteSerials_def
      releasePromo_def releaseVirtual_def releaseMsg_fun split: option.splits)

lemma cancelOrder_update_failed:
  assumes "flt (cw_calls w) (UpdateOrderStatus (o_ID order)) = Some e"
  shows "cancelOrder flt s order hours w =
           (Some e, w\<lparr>cw_calls := cw_calls w @ [UpdateOrderStatus (o_ID order)]\<rparr>)"
  using assms by (simp add: cancelOrder_def Let_def)

lemma cancelOrder_zero_rows:
  assumes "flt (cw_calls w) (UpdateOrderStatus (o_ID order)) = None"
      and "rowsAffected (o_ID order) (cw_orders w) = 0"
  shows "cancelOrder flt s order hours w =
           (None, w\<lparr>cw_calls := cw_calls w @ [UpdateOrderStatus (o_ID order)]\<rparr>)"
  using assms by (simp add: cancelOrder_def Let_def)

lemma cancelOrder_cancelled:
  assumes "flt (cw_calls w) (UpdateOrderStatus (o_ID order)) = None"
      and "rowsAffected (o_ID order) (cw_orders w) > 0"
  shows "cancelOrder flt s order hours w =
           (None,
            (attemptAll flt order (releaseCalls s order)
               (w\<lparr>cw_calls := cw_calls w @ [UpdateOrderStatus (o_ID order)],
                  cw_orders := cancelRows (o_ID order) (cancelRemark hours) (cw_orders w)\<rparr>))
            \<lparr>cw_oplog := cw_oplog w @
               [OrderAutoCancelled (o_ID order) (o_OrderNo order) (o_CreatedAt order)]\<rparr>)"
  using assms
  by (simp add: cancelOrder_def Let_def release_phase attemptAll_fields cancelRemark_def)

lemma rowsAffected_cancelRows_same: "rowsAffected oid (cancelRows oid remark rows) = 0"
  by (auto simp: rowsAffected_def cancelRows_def filter_empty_conv)

lemma rowsAffected_cancelRows_other:
  "k \<noteq> oid \<Longrightarrow> rowsAffected k (cancelRows oid remark rows) = rowsAffected k rows"
  by (induction rows) (auto simp: rowsAffected_def cancelRows_def)

lemma rowsAffected_cancelRows:
  "rowsAffected k (cancelRows oid remark rows) = (if k = oid then 0 else rowsAffected k rows)"
  by (simp add: rowsAffected_cancelRows_same rowsAffected_cancelRows_other)

lemma rowStep_refl: "rowStep r r"
  by (simp add: rowStep_def)

lemma rowStep_trans: "rowStep a b \<Longrightarrow> rowStep b c \<Longrightarrow> rowStep a c"
  by (auto simp: rowStep_def)

lemma rowStep_cancelRows: "list_all2 rowStep rows (cancelRows oid remark rows)"
  by (induction rows) (auto simp: cancelRows_def rowStep_def)

lemma list_all2_rowStep_refl: "list_all2 rowStep rows rows"
  by (simp add: list_all2_refl rowStep_refl)

lemma list_all2_rowStep_trans:
  "list_all2 rowStep xs ys \<Longrightarrow> list_all2 rowStep ys zs \<Longrightarrow> list_all2 rowStep xs zs"
  by (rule list_all2_trans [where ?P1.0 = rowStep and ?P2.0 = rowStep]) (rule rowStep_trans)

lemma hasPending_cancelRows:
  "hasPending k (cancelRows oid remark rows) = (k \<noteq> oid \<and> hasPending k rows)"
  by (simp add: hasPending_def rowsAffected_cancelRows)

lemma cancelledEvents_calls [simp]:
  "cancelledEvents k (w\<lparr>cw_calls := cs\<rparr>) = cancelledEvents k w"
  by (simp add: cancelledEvents_def)

lemma cancelledEvents_logs [simp]:
  "cancelledEvents k (w\<lparr>cw_logs := ls\<rparr>) = cancelledEvents k w"
  by (simp add: cancelledEvents_def)

lemma cancelBudget_cong:
  "cw_oplog w' = cw_oplog w \<Longrightarrow> cw_orders w' = cw_orders w \<Longrightarrow> cancelBudget k w' = cancelBudget k w"
  by (simp add: cancelBudget_def cancelledEvents_def)

lemma cancelOrder_inv:
  "cancelBudget k (snd (cancelOrder flt s order hours w)) = cancelBudget k w
   \<and> (hasPending k (cw_orders (snd (cancelOrder flt s order hours w))) \<longrightarrow>
        hasPending k (cw_orders w))
   \<and> list_all2 rowStep (cw_orders w) (cw_orders (snd (cancelOrder flt s order hours w)))"
proof (cases "flt (cw_calls w) (UpdateOrderStatus (o_ID order))")
  case (Some e)
  show ?thesis
    unfolding cancelOrder_update_failed [where flt = flt and w = w and order = order, OF Some]
    by (simp add: cancelBudget_def list_all2_rowStep_refl)
next
  case None
  show ?thesis
  proof (cases "rowsAffected (o_ID order) (cw_orders w) = 0")
    case True
    show ?thesis
      unfolding cancelOrder_zero_rows [where flt = flt and w = w and order = order, OF None True]
      by (simp add: cancelBudget_def list_all2_rowStep_refl)
  next
    case False
    then have pos: "rowsAffected (o_ID order) (cw_orders w) > 0" by simp
    then have pend: "hasPending (o_ID order) (cw_orders w)" by (simp add: hasPending_def)
    let ?w' = "snd (cancelOrder flt s order hours w)"
    have orders: "cw_orders ?w' = cancelRows (o_ID order) (cancelRemark hours) (cw_orders w)"
      unfolding cancelOrder_cancelled [where flt = flt and w = w and order = order, OF None pos] by (simp add: attemptAll_fields)
    have oplog: "cw_oplog ?w' = cw_oplog w @
        [OrderAutoCancelled (o_ID order) (o_OrderNo order) (o_CreatedAt order)]"
      unfolding cancelOrder_cancelled [where flt = flt and w = w and order = order, OF None pos] by simp
    have events: "cancelledEvents k ?w' = cancelledEvents k w + (if k = o_ID order then 1 else 0)"
      by (simp add: cancelledEvents_def oplog)
    have "cancelBudget k ?w' = cancelBudget k w"
      using pend by (simp add: cancelBudget_def events orders hasPending_cancelRows)
    moreover have "hasPending k (cw_orders ?w') \<longrightarrow> hasPending k (cw_orders w)"
      by (simp add: orders hasPending_cancelRows)
    moreover have "list_all2 rowStep (cw_orders w) (cw_orders ?w')"
      by (simp add: orders rowStep_cancelRows)
    ultimately show ?thesis by simp
  qed
qed

lemma cancelOrder_noFaults_not_pending:
  "\<not> hasPending (o_ID order) (cw_orders (snd (cancelOrder noFaults s order hours w)))"
proof (cases "rowsAffected (o_ID order) (cw_orders w) = 0")
  case True
  have "noFaults (cw_calls w) (UpdateOrderStatus (o_ID order)) = None" by (simp add: noFaults_def)
  from cancelOrder_zero_rows [where flt = noFaults and w = w and order = order, OF this True] True show ?thesis by (simp add: hasPending_def)
next
  case False
  then have pos: "rowsAffected (o_ID order) (cw_orders w) > 0" by simp
  have "noFaults (cw_calls w) (UpdateOrderStatus (o_ID order)) = None" by (simp add: noFaults_def)
  from cancelOrder_cancelled [where flt = noFaults and w = w and order = order, OF this pos] show ?thesis
    by (simp add: attemptAll_fields hasPending_cancelRows)
qed

lemma cancelEach_inv:
  "cancelBudget k (snd (cancelEach flt s hours xs n w)) = cancelBudget k w
   \<and> (hasPending k (cw_orders (snd (cancelEach flt s hours xs n w))) \<longrightarrow>
        hasPending k (cw_orders w))
   \<and> list_all2 rowStep (cw_orders w) (cw_orders (snd (cancelEach flt s hours xs n w)))"
proof (induction xs arbitrary: n w)
  case Nil
  show ?case by (simp add: list_all2_rowStep_refl)
next
  case (Cons x xs)
  obtain e w1 where step: "cancelOrder flt s x hours w = (e, w1)"
    by (cases "cancelOrder flt s x hours w")
  have one: "cancelBudget k w1 = cancelBudget k w
      \<and> (hasPending k (cw_orders w1) \<longrightarrow> hasPending k (cw_orders w))
      \<and> list_all2 rowStep (cw_orders w) (cw_orders w1)"
    using cancelOrder_inv [of k flt s x hours w] by (simp add: step)
  show ?case
  proof (cases e)
    case None
    have eq: "cancelEach flt s hours (x # xs) n w = cancelEach flt s hours xs (n + 1) w1"
      by (simp add: step None)
    show ?thesis
      unfolding eq using Cons.IH [of "n + 1" w1] one
      by (auto intro: list_all2_rowStep_trans)
  next
    case (Some err)
    let ?w2 = "w1\<lparr>cw_logs := cw_logs w1 @
        [''[OrderCancel] Error cancelling order '' @ o_OrderNo x @ '': '' @ err]\<rparr>"
    have eq: "cancelEach flt s hours (x # xs) n w = cancelEach flt s hours xs n ?w2"
      by (simp add: step Some)
    have two: "cancelBudget k ?w2 = cancelBudget k w1" "cw_orders ?w2 = cw_orders w1"
      by (simp_all add: cancelBudget_def)
    show ?thesis
      unfolding eq using Cons.IH [of n ?w2] one two
      by (auto intro: list_all2_rowStep_trans)
  qed
qed

lemma cancelEach_noFaults_not_pending:
  "x \<in> set xs \<Longrightarrow>
   \<not> hasPending (o_ID x) (cw_orders (snd (cancelEach noFaults s hours xs n w)))"
proof (induction xs arbitrary: n w)
  case Nil
  then show ?case by simp
next
  case (Cons y ys)
  obtain e w1 where step: "cancelOrder noFaults s y hours w = (e, w1)"
    by (cases "cancelOrder noFaults s y hours w")
  have e: "e = None"
    using step by (auto simp: cancelOrder_def Let_def noFaults_def split: if_splits)
  have eq: "cancelEach noFaults s hours (y # ys) n w = cancelEach noFaults s hours ys (n + 1) w1"
    by (simp add: step e)
  show ?case
  proof (cases "x \<in> set ys")
    case True
    then show ?thesis unfolding eq by (rule Cons.IH)
  next
    case False
    then have "x = y" using Cons.prems by simp
    then have "\<not> hasPending (o_ID x) (cw_orders w1)"
      using cancelOrder_noFaults_not_pending [of y s hours w] by (simp add: step)
    then show ?thesis
      unfolding eq using cancelEach_inv [of "o_ID x" noFaults s hours ys "n + 1" w1] by blast
  qed
qed

lemma hoursBefore_default: "hoursBefore now 72 = now - 259200000000000"
  by (simp add: hoursBefore_def)

lemma cancelledEvents_sweep_entry [simp]:
  "cancelledEvents k (w\<lparr>cw_oplog := cw_oplog w @ [OrderAutoCancelSweep a b c]\<rparr>) =
   cancelledEvents k w"
  by (simp add: cancelledEvents_def)

lemma cancelExpiredOrders_inv:
  "cancelBudget k (cancelExpiredOrders flt s now w) = cancelBudget k w
   \<and> (hasPending k (cw_orders (cancelExpiredOrders flt s now w)) \<longrightarrow> hasPending k (cw_orders w))
   \<and> list_all2 rowStep (cw_orders w) (cw_orders (cancelExpiredOrders flt s now w))"
proof -
  let ?w0 = "w\<lparr>cw_calls := cw_calls w @ [QueryExpiredOrders]\<rparr>"
  let ?found = "expiredOrders (hoursBefore now (getAutoCancelHours s)) (cw_orders w)"
  obtain n w1 where run: "cancelEach flt s (getAutoCancelHours s) ?found 0 ?w0 = (n, w1)"
    by (cases "cancelEach flt s (getAutoCancelHours s) ?found 0 ?w0")
  have base: "cancelBudget k ?w0 = cancelBudget k w" "cw_orders ?w0 = cw_orders w"
    by (simp_all add: cancelBudget_def)
  have each: "cancelBudget k w1 = cancelBudget k w
      \<and> (hasPending k (cw_orders w1) \<longrightarrow> hasPending k (cw_orders w))
      \<and> list_all2 rowStep (cw_orders w) (cw_orders w1)"
    using cancelEach_inv [of k flt s "getAutoCancelHours s" ?found 0 ?w0] base by (simp add: run)
  show ?thesis
    using each
    by (auto simp: cancelExpiredOrders_def Let_def run cancelBudget_def list_all2_rowStep_refl
        split: option.splits if_splits)
qed

lemma expired_is_pending:
  assumes "r \<in> set (expiredOrders cutoff rows)"
  shows "hasPending (o_ID r) rows"
proof -
  have "r \<in> set (filter (\<lambda>x. o_Status x = OrderStatusPendingPayment \<and> o_CreatedAt x < cutoff) rows)"
    using assms by (auto simp: expiredOrders_def dest: in_set_takeD)
  then have "r \<in> set (filter (\<lambda>x. o_ID x = o_ID r \<and> o_Status x = OrderStatusPendingPayment) rows)"
    by simp
  then have "filter (\<lambda>x. o_ID x = o_ID r \<and> o_Status x = OrderStatusPendingPayment) rows \<noteq> []"
    by (metis empty_iff empty_set)
  then show ?thesis by (simp add: hasPending_def rowsAffected_def)
qed

lemma cancelExpiredOrders_noFaults_not_pending:
  assumes "r \<in> set (expiredOrders (hoursBefore now (getAutoCancelHours s)) (cw_orders w))"
  shows "\<not> hasPending (o_ID r) (cw_orders (cancelExpiredOrders noFaults s now w))"
proof -
  let ?w0 = "w\<lparr>cw_calls := cw_calls w @ [QueryExpiredOrders]\<rparr>"
  let ?found = "expiredOrders (hoursBefore now (getAutoCancelHours s)) (cw_orders w)"
  obtain n w1 where run: "cancelEach noFaults s (getAutoCancelHours s) ?found 0 ?w0 = (n, w1)"
    by (cases "cancelEach noFaults s (getAutoCancelHours s) ?found 0 ?w0")
  have ne: "?found \<noteq> []" using assms by auto
  have "\<not> hasPending (o_ID r) (cw_orders w1)"
    using cancelEach_noFaults_not_pending [OF assms, of s "getAutoCancelHours s" 0 ?w0]
    by (simp add: run)
  moreover have "noFaults (cw_calls w) QueryExpiredOrders = None"
    by (simp add: noFaults_def)
  ultimately show ?thesis
    using ne by (simp add: cancelExpiredOrders_def Let_def run)
qed

lemma budget_bound: "cancelledEvents k w \<le> cancelBudget k w" "cancelBudget k w \<le> cancelledEvents k w + 1"
  by (simp_all add: cancelBudget_def)

lemma pending_row_hasPending:
  assumes "x \<in> set rows" and "o_Status x = OrderStatusPendingPayment"
  shows "hasPending (o_ID x) rows"
proof -
  have "x \<in> set (filter (\<lambda>r. o_ID r = o_ID x \<and> o_Status r = OrderStatusPendingPayment) rows)"
    using assms by simp
  then have "filter (\<lambda>r. o_ID r = o_ID x \<and> o_Status r = OrderStatusPendingPayment) rows \<noteq> []"
    by (metis empty_iff empty_set)
  then show ?thesis by (simp add: hasPending_def rowsAffected_def)
qed

lemma rowStep_not_pending: "rowStep r r' \<Longrightarrow> o_Status r \<noteq> OrderStatusPendingPayment \<Longrightarrow> r' = r"
  by (auto simp: rowStep_def)

lemma rowStep_cancelled:
  "rowStep r r' \<Longrightarrow> o_Status r' \<noteq> OrderStatusPendingPayment \<Longrightarrow>
   o_Status r = OrderStatusPendingPayment \<Longrightarrow> o_Status r' = OrderStatusCancelled \<and> o_ID r' = o_ID r"
  by (auto simp: rowStep_def)

text \<open>
  C6. When the conditional status update of \<open>cancelOrder\<close> succeeds (no error, at least one
  row affected), then whatever release calls fail: \<open>cancelOrder\<close> returns nil; the orders
  table is the one the update produced, in which no row of the order is pending any
  more (nothing is rolled back); the calls made are the update followed by every release
  call of the order, each attempted whatever the outcome of the others; and the log
  gains exactly one line per failed release call.
\<close>

theorem cancelOrder_releases_independently:
  assumes "flt (cw_calls w) (UpdateOrderStatus (o_ID order)) = None"
      and "rowsAffected (o_ID order) (cw_orders w) > 0"
  shows "fst (cancelOrder flt s order hours w) = None
       \<and> cw_orders (snd (cancelOrder flt s order hours w)) =
           cancelRows (o_ID order) (cancelRemark hours) (cw_orders w)
       \<and> rowsAffected (o_ID order) (cw_orders (snd (cancelOrder flt s order hours w))) = 0
       \<and> cw_calls (snd (cancelOrder flt s order hours w)) =
           cw_calls w @ UpdateOrderStatus (o_ID order) # releaseCalls s order
       \<and> cw_logs (snd (cancelOrder flt s order hours w)) =
           cw_logs w @ failureLines flt order (cw_calls w @ [UpdateOrderStatus (o_ID order)])
                         (releaseCalls s order)
       \<and> cw_oplog (snd (cancelOrder flt s order hours w)) =
           cw_oplog w @ [OrderAutoCancelled (o_ID order) (o_OrderNo order) (o_CreatedAt order)]"
  unfolding cancelOrder_cancelled [where flt = flt and w = w and order = order, OF assms]
  by (simp add: attemptAll_fields rowsAffected_cancelRows_same)

theorem cancelOrder_releases_independently_witness:
  "virtualStockDown (cw_calls exampleOrders) (UpdateOrderStatus (o_ID exampleOrder)) = None
   \<and> rowsAffected (o_ID exampleOrder) (cw_orders exampleOrders) > 0
   \<and> fst (cancelOrder virtualStockDown (exampleService 72) exampleOrder 72 exampleOrders) = None
   \<and> map o_Status
        (cw_orders (snd (cancelOrder virtualStockDown (exampleService 72) exampleOrder 72
                           exampleOrders))) =
       [OrderStatusCancelled, OrderStatusCompleted]
   \<and> cw_calls (snd (cancelOrder virtualStockDown (exampleService 72) exampleOrder 72
                        exampleOrders)) =
       [UpdateOrderStatus 1, InventoryReleaseReserve 5 2 ''ORD-1'', VirtualReleaseStock ''ORD-1'',
        PromoReleaseReserve 9 ''ORD-1'', DeleteSerialsByOrderID 1]
   \<and> cw_logs (snd (cancelOrder virtualStockDown (exampleService 72) exampleOrder 72
                       exampleOrders)) =
       [''[OrderCancel] Order ORD-1 failed to release virtual stock: db down'']"
  using cancelOrder_releases_independently
    [where flt = virtualStockDown and s = "exampleService 72" and order = exampleOrder
       and hours = 72 and w = exampleOrders]
  by (simp add: virtualStockDown_def exampleOrders_def exampleOrder_def
      exampleCompletedOrder_def exampleService_def rowsAffected_def releaseCalls_def
      cancelRows_def)

lemma sweep_once_exact:
  assumes "r \<in> set (expiredOrders (hoursBefore now (getAutoCancelHours s)) (cw_orders w))"
  shows "cancelledEvents (o_ID r) (cancelExpiredOrders noFaults s now w) =
           cancelledEvents (o_ID r) w + 1
       \<and> cancelledEvents (o_ID r)
           (cancelExpiredOrders fltB sB nowB (cancelExpiredOrders noFaults s now w)) =
           cancelledEvents (o_ID r) w + 1
       \<and> rowsAffected (o_ID r) (cw_orders (cancelExpiredOrders noFaults s now w)) = 0
       \<and> rowsAffected (o_ID r)
           (cw_orders (cancelExpiredOrders fltB sB nowB (cancelExpiredOrders noFaults s now w))) = 0"
proof (intro conjI)
  let ?w1 = "cancelExpiredOrders noFaults s now w"
  let ?w2 = "cancelExpiredOrders fltB sB nowB ?w1"
  have p0: "hasPending (o_ID r) (cw_orders w)"
    using assms by (rule expired_is_pending)
  have p1: "\<not> hasPending (o_ID r) (cw_orders ?w1)"
    using assms by (rule cancelExpiredOrders_noFaults_not_pending)
  have p2: "\<not> hasPending (o_ID r) (cw_orders ?w2)"
    using cancelExpiredOrders_inv [of "o_ID r" fltB sB nowB ?w1] p1 by blast
  have b1: "cancelBudget (o_ID r) ?w1 = cancelBudget (o_ID r) w"
    using cancelExpiredOrders_inv [of "o_ID r" noFaults s now w] by blast
  have b2: "cancelBudget (o_ID r) ?w2 = cancelBudget (o_ID r) ?w1"
    using cancelExpiredOrders_inv [of "o_ID r" fltB sB nowB ?w1] by blast
  show "cancelledEvents (o_ID r) ?w1 = cancelledEvents (o_ID r) w + 1"
    using b1 p0 p1 by (simp add: cancelBudget_def)
  show "cancelledEvents (o_ID r) ?w2 = cancelledEvents (o_ID r) w + 1"
    using b1 b2 p0 p1 p2 by (simp add: cancelBudget_def)
  show "rowsAffected (o_ID r) (cw_orders ?w1) = 0"
    using p1 by (simp add: hasPending_def)
  show "rowsAffected (o_ID r) (cw_orders ?w2) = 0"
    using p2 by (simp add: hasPending_def)
qed

lemma two_sweeps_at_most_once:
  "cancelledEvents k (cancelExpiredOrders fltB sB nowB (cancelExpiredOrders fltA sA nowA w))
     \<le> cancelledEvents k w + 1"
proof -
  let ?w1 = "cancelExpiredOrders fltA sA nowA w"
  let ?w2 = "cancelExpiredOrders fltB sB nowB ?w1"
  have "cancelledEvents k ?w2 \<le> cancelBudget k ?w2" by (rule budget_bound)
  also have "\<dots> = cancelBudget k ?w1"
    using cancelExpiredOrders_inv [of k fltB sB nowB ?w1] by blast
  also have "\<dots> = cancelBudget k w"
    using cancelExpiredOrders_inv [of k fltA sA nowA w] by blast
  also have "\<dots> \<le> cancelledEvents k w + 1" by (rule budget_bound)
  finally show ?thesis .
qed

lemma cancelOrder_guard:
  "length (cw_orders (snd (cancelOrder flt s order hours w))) = length (cw_orders w)
   \<and> (\<forall>i < length (cw_orders w).
        o_Status (cw_orders w ! i) \<noteq> OrderStatusPendingPayment \<longrightarrow>
        cw_orders (snd (cancelOrder flt s order hours w)) ! i = cw_orders w ! i)"
proof -
  have l: "list_all2 rowStep (cw_orders w) (cw_orders (snd (cancelOrder flt s order hours w)))"
    using cancelOrder_inv [of 0 flt s order hours w] by blast
  then have "length (cw_orders (snd (cancelOrder flt s order hours w))) = length (cw_orders w)"
    by (simp add: list_all2_lengthD)
  moreover have "cw_orders (snd (cancelOrder flt s order hours w)) ! i = cw_orders w ! i"
    if "i < length (cw_orders w)" "o_Status (cw_orders w ! i) \<noteq> OrderStatusPendingPayment" for i
    using list_all2_nthD [OF l that(1)] that(2) by (rule rowStep_not_pending)
  ultimately show ?thesis by blast
qed

text \<open>
  C5. The status transition of \<open>cancelOrder\<close> is a conditional update: a row that is not
  pending payment is left as it is. When the update affects no row (and reports no
  error), \<open>cancelOrder\<close> returns nil and does nothing beyond the update call: no release
  is attempted and nothing is logged. Two runs of the sweep, whatever their failures,
  configuration and times, record at most one cancellation for any order id; and for an
  order selected by a first run in which no call fails, exactly one cancellation is
  recorded after the first run and still after the second, no row of the order being
  pending after either.
\<close>

theorem cancel_is_conditional_and_once:
  "length (cw_orders (snd (cancelOrder flt s order hours w))) = length (cw_orders w)
   \<and> (\<forall>i < length (cw_orders w).
        o_Status (cw_orders w ! i) \<noteq> OrderStatusPendingPayment \<longrightarrow>
        cw_orders (snd (cancelOrder flt s order hours w)) ! i = cw_orders w ! i)
   \<and> (flt (cw_calls w) (UpdateOrderStatus (o_ID order)) = None \<and>
      rowsAffected (o_ID order) (cw_orders w) = 0 \<longrightarrow>
        cancelOrder flt s order hours w =
          (None, w\<lparr>cw_calls := cw_calls w @ [UpdateOrderStatus (o_ID order)]\<rparr>))
   \<and> cancelledEvents k (cancelExpiredOrders fltB sB nowB (cancelExpiredOrders fltA sA nowA w))
        \<le> cancelledEvents k w + 1
   \<and> (r \<in> set (expiredOrders (hoursBefore now (getAutoCancelHours s)) (cw_orders w)) \<longrightarrow>
        cancelledEvents (o_ID r) (cancelExpiredOrders noFaults s now w) =
          cancelledEvents (o_ID r) w + 1
      \<and> cancelledEvents (o_ID r)
          (cancelExpiredOrders fltB sB nowB (cancelExpiredOrders noFaults s now w)) =
          cancelledEvents (o_ID r) w + 1
      \<and> rowsAffected (o_ID r) (cw_orders (cancelExpiredOrders noFaults s now w)) = 0
      \<and> rowsAffected (o_ID r)
          (cw_orders (cancelExpiredOrders fltB sB nowB (cancelExpiredOrders noFaults s now w))) = 0)"
  using cancelOrder_guard [of flt s order hours w]
    cancelOrder_zero_rows [where flt = flt and w = w and order = order and s = s and hours = hours]
    two_sweeps_at_most_once [of k fltB sB nowB fltA sA nowA w]
    sweep_once_exact [of r now s w fltB sB nowB]
  by blast

theorem cancel_is_conditional_and_once_witness:
  "noFaults (cw_calls exampleOrders) (UpdateOrderStatus (o_ID exampleCompletedOrder)) = None
   \<and> rowsAffected (o_ID exampleCompletedOrder) (cw_orders exampleOrders) = 0
   \<and> cancelOrder noFaults (exampleService 72) exampleCompletedOrder 72 exampleOrders =
       (None, exampleOrders\<lparr>cw_calls := [UpdateOrderStatus 2]\<rparr>)
   \<and> exampleOrder \<in> set (expiredOrders
         (hoursBefore exampleNow (getAutoCancelHours (exampleService 72)))
         (cw_orders exampleOrders))
   \<and> cancelledEvents 1 exampleOrders = 0
   \<and> cancelledEvents 1 (cancelExpiredOrders noFaults (exampleService 72) exampleNow exampleOrders) = 1
   \<and> cancelledEvents 1
        (cancelExpiredOrders noFaults (exampleService 72) exampleNow
          (cancelExpiredOrders noFaults (exampleService 72) exampleNow exampleOrders)) = 1"
  using cancel_is_conditional_and_once
    [where flt = noFaults and fltA = noFaults and fltB = noFaults and k = 1 and hours = 72
       and now = exampleNow and nowA = exampleNow and nowB = exampleNow
       and s = "exampleService 72" and sA = "exampleService 72" and sB = "exampleService 72"
       and order = exampleCompletedOrder and r = exampleOrder and w = exampleOrders]
  by (simp add: noFaults_def rowsAffected_def expiredOrders_def hoursBefore_def
      getAutoCancelHours_def cancelledEvents_def exampleOrders_def exampleOrder_def
      exampleCompletedOrder_def exampleService_def exampleNow_def)

text \<open>
  C9. When the configured hours are zero or negative, \<open>getAutoCancelHours\<close> yields 72, the
  sweep is the sweep of a service configured with 72 hours, its query selects the
  pending orders created more than 72 hours before now (at most 100 of them), and in a
  run in which no call fails every selected order ends cancelled.
\<close>

theorem auto_cancel_defaults_to_72_hours:
  assumes "cfg_AutoCancelHours s \<le> 0"
  shows "getAutoCancelHours s = 72
       \<and> cancelExpiredOrders flt s now w =
           cancelExpiredOrders flt (s\<lparr>cfg_AutoCancelHours := 72\<rparr>) now w
       \<and> expiredOrders (hoursBefore now (getAutoCancelHours s)) rows =
           take 100 (filter (\<lambda>r. o_Status r = OrderStatusPendingPayment \<and>
                                 o_CreatedAt r < now - 72 * 3600000000000) rows)
       \<and> (i < length (cw_orders w) \<and>
          cw_orders w ! i \<in> set (expiredOrders (now - 72 * 3600000000000) (cw_orders w)) \<longrightarrow>
            o_Status (cw_orders (cancelExpiredOrders noFaults s now w) ! i) = OrderStatusCancelled)"
proof -
  have h: "getAutoCancelHours s = 72"
    using assms by (simp add: getAutoCancelHours_def defaultAutoCancelHours_def)
  have h': "getAutoCancelHours (s\<lparr>cfg_AutoCancelHours := 72\<rparr>) = 72"
    by (simp add: getAutoCancelHours_def)
  have same: "cancelExpiredOrders flt s now w =
      cancelExpiredOrders flt (s\<lparr>cfg_AutoCancelHours := 72\<rparr>) now w"
  proof -
    have item: "releaseVirtual f (s\<lparr>cfg_AutoCancelHours := 72\<rparr>) x v = releaseVirtual f s x v"
        "releasePromo f (s\<lparr>cfg_AutoCancelHours := 72\<rparr>) x v = releasePromo f s x v"
        "deleteSerials f (s\<lparr>cfg_AutoCancelHours := 72\<rparr>) x v = deleteSerials f s x v" for f x v
      by (simp_all add: releaseVirtual_def releasePromo_def deleteSerials_def split: option.splits)
    have one: "cancelOrder f (s\<lparr>cfg_AutoCancelHours := 72\<rparr>) x hh v = cancelOrder f s x hh v"
      for f x hh v
      by (simp add: cancelOrder_def Let_def item split: option.splits)
    have each: "cancelEach f (s\<lparr>cfg_AutoCancelHours := 72\<rparr>) hh xs n v = cancelEach f s hh xs n v"
      for f hh xs n v
      by (induction xs arbitrary: n v) (simp_all add: one split: prod.splits option.splits)
    have each_fun: "cancelEach f (s\<lparr>cfg_AutoCancelHours := 72\<rparr>) hh = cancelEach f s hh" for f hh
      by (intro ext) (rule each)
    show ?thesis
      unfolding cancelExpiredOrders_def h h' each_fun by (rule refl)
  qed
  have cut: "hoursBefore now (getAutoCancelHours s) = now - 72 * 3600000000000"
    by (simp add: h hoursBefore_default)
  have sel: "expiredOrders (hoursBefore now (getAutoCancelHours s)) rows =
      take 100 (filter (\<lambda>r. o_Status r = OrderStatusPendingPayment \<and>
                            o_CreatedAt r < now - 72 * 3600000000000) rows)"
    unfolding cut by (simp add: expiredOrders_def)
  have fin: "o_Status (cw_orders (cancelExpiredOrders noFaults s now w) ! i) = OrderStatusCancelled"
    if i: "i < length (cw_orders w)"
      and r: "cw_orders w ! i \<in> set (expiredOrders (now - 72 * 3600000000000) (cw_orders w))"
  proof -
    let ?r = "cw_orders w ! i"
    let ?w1 = "cancelExpiredOrders noFaults s now w"
    have r': "?r \<in> set (expiredOrders (hoursBefore now (getAutoCancelHours s)) (cw_orders w))"
      using r by (simp only: cut)
    have pend: "o_Status ?r = OrderStatusPendingPayment"
      using r by (auto simp: expiredOrders_def dest: in_set_takeD)
    have l: "list_all2 rowStep (cw_orders w) (cw_orders ?w1)"
      using cancelExpiredOrders_inv [of 0 noFaults s now w] by blast
    have step: "rowStep ?r (cw_orders ?w1 ! i)"
      using list_all2_nthD [OF l i] .
    have len: "i < length (cw_orders ?w1)"
      using l i by (simp add: list_all2_lengthD)
    have idr: "o_ID (cw_orders ?w1 ! i) = o_ID ?r"
      using step by (auto simp: rowStep_def)
    have np: "\<not> hasPending (o_ID ?r) (cw_orders ?w1)"
      using r' by (rule cancelExpiredOrders_noFaults_not_pending)
    have "o_Status (cw_orders ?w1 ! i) \<noteq> OrderStatusPendingPayment"
    proof
      assume "o_Status (cw_orders ?w1 ! i) = OrderStatusPendingPayment"
      then have "hasPending (o_ID (cw_orders ?w1 ! i)) (cw_orders ?w1)"
        using len by (intro pending_row_hasPending) simp_all
      then show False using np idr by simp
    qed
    then show ?thesis using rowStep_cancelled [OF step _ pend] by blast
  qed
  show ?thesis using h same sel fin by blast
qed

theorem auto_cancel_defaults_to_72_hours_witness:
  "cfg_AutoCancelHours (exampleService 0) \<le> 0
   \<and> getAutoCancelHours (exampleService 0) = 72
   \<and> o_Status (cw_orders exampleOrders ! 0) = OrderStatusPendingPayment
   \<and> o_Status (cw_orders (cancelExpiredOrders noFaults (exampleService 0) exampleNow
                              exampleOrders) ! 0) = OrderStatusCancelled"
proof -
  have cfg: "cfg_AutoCancelHours (exampleService 0) \<le> 0"
    by (simp add: exampleService_def)
  have sel: "0 < length (cw_orders exampleOrders) \<and>
      cw_orders exampleOrders ! 0 \<in>
        set (expiredOrders (exampleNow - 72 * 3600000000000) (cw_orders exampleOrders))"
    by (simp add: expiredOrders_def exampleOrders_def exampleOrder_def
        exampleCompletedOrder_def exampleNow_def)
  have pend: "o_Status (cw_orders exampleOrders ! 0) = OrderStatusPendingPayment"
    by (simp add: exampleOrders_def exampleOrder_def)
  note t = auto_cancel_defaults_to_72_hours
    [where i = 0 and now = exampleNow and flt = noFaults and rows = "[]"
       and s = "exampleService 0" and w = exampleOrders, OF cfg]
  have a: "getAutoCancelHours (exampleService 0) = 72" using t by blast
  have b: "o_Status (cw_orders (cancelExpiredOrders noFaults (exampleService 0) exampleNow
                                  exampleOrders) ! 0) = OrderStatusCancelled"
    using t sel by blast
  show ?thesis by (intro conjI cfg a pend b)
qed
section \<open>The auto-close sweep: one transaction per ticket\<close>

lemma closeTicketTx_outcome:
  "fst (closeTicketTx flt ticket hours now active tx) \<noteq> None
   \<or> (fst (closeTicketTx flt ticket hours now active tx) = None
      \<and> ticketRowsAffected (t_ID ticket) active (tw_tickets tx) = 0
      \<and> tw_tickets (snd (closeTicketTx flt ticket hours now active tx)) = tw_tickets tx
      \<and> tw_messages (snd (closeTicketTx flt ticket hours now active tx)) = tw_messages tx)
   \<or> (fst (closeTicketTx flt ticket hours now active tx) = None
      \<and> ticketRowsAffected (t_ID ticket) active (tw_tickets tx) > 0
      \<and> tw_tickets (snd (closeTicketTx flt ticket hours now active tx)) =
          bumpRows (t_ID ticket) now (messagePreview (ticketAutoCloseMessage (t_User ticket) hours))
            (closeRows (t_ID ticket) active now (tw_tickets tx))
      \<and> tw_messages (snd (closeTicketTx flt ticket hours now active tx)) =
          tw_messages tx @ [systemMessage ticket hours])"
  by (simp add: closeTicketTx_def Let_def split: option.splits)

lemma closeTicketTx_zero_rows:
  assumes "ticketRowsAffected (t_ID ticket) active (tw_tickets tx) = 0"
  shows "tw_tickets (snd (closeTicketTx flt ticket hours now active tx)) = tw_tickets tx
       \<and> tw_messages (snd (closeTicketTx flt ticket hours now active tx)) = tw_messages tx"
  using assms by (simp add: closeTicketTx_def Let_def split: option.splits)

lemma Transaction_tables:
  "(tw_tickets (snd (Transaction flt fn w)) = tw_tickets w
      \<and> tw_messages (snd (Transaction flt fn w)) = tw_messages w)
   \<or> (fst (Transaction flt fn w) = None
      \<and> fst (fn (w\<lparr>tw_calls := tw_calls w @ [BeginTransaction]\<rparr>)) = None
      \<and> tw_tickets (snd (Transaction flt fn w)) =
          tw_tickets (snd (fn (w\<lparr>tw_calls := tw_calls w @ [BeginTransaction]\<rparr>)))
      \<and> tw_messages (snd (Transaction flt fn w)) =
          tw_messages (snd (fn (w\<lparr>tw_calls := tw_calls w @ [BeginTransaction]\<rparr>))))"
  by (cases "fn (w\<lparr>tw_calls := tw_calls w @ [BeginTransaction]\<rparr>)")
     (simp add: Transaction_def Let_def rollback_def split: option.splits)

lemma closeTicket_tables:
  "(tw_tickets (snd (closeTicket flt ticket hours now active w)) = tw_tickets w
      \<and> tw_messages (snd (closeTicket flt ticket hours now active w)) = tw_messages w)
   \<or> (fst (closeTicket flt ticket hours now active w) = None
      \<and> ticketRowsAffected (t_ID ticket) active (tw_tickets w) > 0
      \<and> tw_tickets (snd (closeTicket flt ticket hours now active w)) =
          bumpRows (t_ID ticket) now (messagePreview (ticketAutoCloseMessage (t_User ticket) hours))
            (closeRows (t_ID ticket) active now (tw_tickets w))
      \<and> tw_messages (snd (closeTicket flt ticket hours now active w)) =
          tw_messages w @ [systemMessage ticket hours])"
proof -
  let ?w0 = "w\<lparr>tw_calls := tw_calls w @ [BeginTransaction]\<rparr>"
  let ?fn = "closeTicketTx flt ticket hours now active"
  have tabs: "tw_tickets ?w0 = tw_tickets w" "tw_messages ?w0 = tw_messages w" by simp_all
  show ?thesis
    using Transaction_tables [of flt ?fn w] closeTicketTx_outcome [of flt ticket hours now active ?w0]
    unfolding closeTicket_def tabs by auto
qed

lemma closeTicket_zero_rows:
  assumes "ticketRowsAffected (t_ID ticket) active (tw_tickets w) = 0"
  shows "tw_tickets (snd (closeTicket flt ticket hours now active w)) = tw_tickets w
       \<and> tw_messages (snd (closeTicket flt ticket hours now active w)) = tw_messages w"
  using closeTicket_tables [of flt ticket hours now active w] assms by auto

lemma closeTicket_noFaults:
  assumes "ticketRowsAffected (t_ID ticket) active (tw_tickets w) > 0"
  shows "fst (closeTicket noFaults ticket hours now active w) = None
       \<and> tw_tickets (snd (closeTicket noFaults ticket hours now active w)) =
          bumpRows (t_ID ticket) now (messagePreview (ticketAutoCloseMessage (t_User ticket) hours))
            (closeRows (t_ID ticket) active now (tw_tickets w))
       \<and> tw_messages (snd (closeTicket noFaults ticket hours now active w)) =
          tw_messages w @ [systemMessage ticket hours]"
  using assms
  by (simp add: closeTicket_def Transaction_def closeTicketTx_def Let_def noFaults_def)

lemma closed_and_bumped:
  assumes "i < length rows" and "t_ID (rows ! i) = tid" and "t_Status (rows ! i) \<in> set active"
  shows "t_Status (bumpRows tid now preview (closeRows tid active now rows) ! i) = TicketStatusClosed
       \<and> t_ClosedAt (bumpRows tid now preview (closeRows tid active now rows) ! i) = Some now
       \<and> t_UnreadCountUser (bumpRows tid now preview (closeRows tid active now rows) ! i) =
           t_UnreadCountUser (rows ! i) + 1"
  using assms by (simp add: bumpRows_def closeRows_def)

lemma ticketAutoCloseMessage_locale:
  "ticketAutoCloseMessage user hours =
     (if (\<exists>u. user = Some u \<and> u_Locale u = ''zh'')
      then zhClosedPrefix @ itoa hours @ zhClosedSuffix
      else ''Ticket automatically closed after '' @ itoa hours @ '' hours with no reply.'')"
  by (cases user) (simp_all add: ticketAutoCloseMessage_def)

text \<open>
  C7. \<open>closeTicket\<close> is all or nothing, whatever calls fail: after it, either the ticket and
  message tables are as they were, or it returned nil and the status flip, the system
  message and the counter update have all taken place (the rows of the ticket in an
  active status are closed at \<open>now\<close> with the unread counter of the user raised by one,
  and exactly the system message has been appended). When the conditional update
  affects no row, the tables are as they were: no message, no counter change. When no
  call fails and a row is affected, all three take place. The content of the message
  depends on the locale of the ticket's user: the Chinese text for \<open>zh\<close>, the English
  text otherwise.
\<close>

theorem closeTicket_all_or_nothing:
  "((tw_tickets (snd (closeTicket flt ticket hours now active w)) = tw_tickets w
       \<and> tw_messages (snd (closeTicket flt ticket hours now active w)) = tw_messages w)
    \<or> (fst (closeTicket flt ticket hours now active w) = None
       \<and> ticketRowsAffected (t_ID ticket) active (tw_tickets w) > 0
       \<and> tw_tickets (snd (closeTicket flt ticket hours now active w)) =
           bumpRows (t_ID ticket) now
             (messagePreview (ticketAutoCloseMessage (t_User ticket) hours))
             (closeRows (t_ID ticket) active now (tw_tickets w))
       \<and> tw_messages (snd (closeTicket flt ticket hours now active w)) =
           tw_messages w @ [systemMessage ticket hours]))
   \<and> (ticketRowsAffected (t_ID ticket) active (tw_tickets w) = 0 \<longrightarrow>
        tw_tickets (snd (closeTicket flt ticket hours now active w)) = tw_tickets w
        \<and> tw_messages (snd (closeTicket flt ticket hours now active w)) = tw_messages w)
   \<and> (ticketRowsAffected (t_ID ticket) active (tw_tickets w) > 0 \<longrightarrow>
        fst (closeTicket noFaults ticket hours now active w) = None
        \<and> tw_tickets (snd (closeTicket noFaults ticket hours now active w)) =
            bumpRows (t_ID ticket) now
              (messagePreview (ticketAutoCloseMessage (t_User ticket) hours))
              (closeRows (t_ID ticket) active now (tw_tickets w))
        \<and> tw_messages (snd (closeTicket noFaults ticket hours now active w)) =
            tw_messages w @ [systemMessage ticket hours])
   \<and> (i < length (tw_tickets w) \<and> t_ID (tw_tickets w ! i) = t_ID ticket \<and>
      t_Status (tw_tickets w ! i) \<in> set active \<longrightarrow>
        t_Status (bumpRows (t_ID ticket) now preview
                    (closeRows (t_ID ticket) active now (tw_tickets w)) ! i) = TicketStatusClosed
        \<and> t_UnreadCountUser (bumpRows (t_ID ticket) now preview
                    (closeRows (t_ID ticket) active now (tw_tickets w)) ! i) =
            t_UnreadCountUser (tw_tickets w ! i) + 1)
   \<and> tm_Content (systemMessage ticket hours) =
       (if (\<exists>u. t_User ticket = Some u \<and> u_Locale u = ''zh'')
        then zhClosedPrefix @ itoa hours @ zhClosedSuffix
        else ''Ticket automatically closed after '' @ itoa hours @ '' hours with no reply.'')"
proof (intro conjI impI)
  show "(tw_tickets (snd (closeTicket flt ticket hours now active w)) = tw_tickets w
       \<and> tw_messages (snd (closeTicket flt ticket hours now active w)) = tw_messages w)
    \<or> (fst (closeTicket flt ticket hours now active w) = None
       \<and> ticketRowsAffected (t_ID ticket) active (tw_tickets w) > 0
       \<and> tw_tickets (snd (closeTicket flt ticket hours now active w)) =
           bumpRows (t_ID ticket) now
             (messagePreview (ticketAutoCloseMessage (t_User ticket) hours))
             (closeRows (t_ID ticket) active now (tw_tickets w))
       \<and> tw_messages (snd (closeTicket flt ticket hours now active w)) =
           tw_messages w @ [systemMessage ticket hours])"
    by (rule closeTicket_tables)
next
  assume z: "ticketRowsAffected (t_ID ticket) active (tw_tickets w) = 0"
  show "tw_tickets (snd (closeTicket flt ticket hours now active w)) = tw_tickets w"
    using closeTicket_zero_rows [OF z] by blast
  show "tw_messages (snd (closeTicket flt ticket hours now active w)) = tw_messages w"
    using closeTicket_zero_rows [OF z] by blast
next
  assume p: "ticketRowsAffected (t_ID ticket) active (tw_tickets w) > 0"
  show "fst (closeTicket noFaults ticket hours now active w) = None"
    using closeTicket_noFaults [OF p] by blast
  show "tw_tickets (snd (closeTicket noFaults ticket hours now active w)) =
      bumpRows (t_ID ticket) now
        (messagePreview (ticketAutoCloseMessage (t_User ticket) hours))
        (closeRows (t_ID ticket) active now (tw_tickets w))"
    using closeTicket_noFaults [OF p] by blast
  show "tw_messages (snd (closeTicket noFaults ticket hours now active w)) =
      tw_messages w @ [systemMessage ticket hours]"
    using closeTicket_noFaults [OF p] by blast
next
  assume a: "i < length (tw_tickets w) \<and> t_ID (tw_tickets w ! i) = t_ID ticket \<and>
      t_Status (tw_tickets w ! i) \<in> set active"
  show "t_Status (bumpRows (t_ID ticket) now preview
          (closeRows (t_ID ticket) active now (tw_tickets w)) ! i) = TicketStatusClosed"
    using a closed_and_bumped [of i "tw_tickets w" "t_ID ticket" active now preview] by blast
  show "t_UnreadCountUser (bumpRows (t_ID ticket) now preview
          (closeRows (t_ID ticket) active now (tw_tickets w)) ! i) =
      t_UnreadCountUser (tw_tickets w ! i) + 1"
    using a closed_and_bumped [of i "tw_tickets w" "t_ID ticket" active now preview] by blast
next
  show "tm_Content (systemMessage ticket hours) =
       (if (\<exists>u. t_User ticket = Some u \<and> u_Locale u = ''zh'')
        then zhClosedPrefix @ itoa hours @ zhClosedSuffix
        else ''Ticket automatically closed after '' @ itoa hours @ '' hours with no reply.'')"
    by (simp add: systemMessage_def ticketAutoCloseMessage_locale)
qed

lemma untouched_refl: "untouched S r r"
  by (simp add: untouched_def)

lemma untouched_trans: "untouched S a b \<Longrightarrow> untouched S b c \<Longrightarrow> untouched S a c"
  by (auto simp: untouched_def)

lemma list_untouched_refl: "list_all2 (untouched S) rows rows"
  by (simp add: list_all2_refl untouched_refl)

lemma list_untouched_trans:
  "list_all2 (untouched S) xs ys \<Longrightarrow> list_all2 (untouched S) ys zs \<Longrightarrow>
   list_all2 (untouched S) xs zs"
  by (rule list_all2_trans [where ?P1.0 = "untouched S" and ?P2.0 = "untouched S"])
     (rule untouched_trans)

lemma untouched_closeRows:
  "tid \<in> S \<Longrightarrow> list_all2 (untouched S) rows (closeRows tid active now rows)"
  by (induction rows) (auto simp: closeRows_def untouched_def)

lemma untouched_bumpRows:
  "tid \<in> S \<Longrightarrow> list_all2 (untouched S) rows (bumpRows tid now preview rows)"
  by (induction rows) (auto simp: bumpRows_def untouched_def)

lemma closeTicket_untouched:
  assumes "t_ID ticket \<in> S"
  shows "list_all2 (untouched S) (tw_tickets w)
           (tw_tickets (snd (closeTicket flt ticket hours now active w)))"
proof -
  have full: "list_all2 (untouched S) (tw_tickets w)
      (bumpRows (t_ID ticket) now p (closeRows (t_ID ticket) active now (tw_tickets w)))" for p
    using untouched_closeRows [OF assms] untouched_bumpRows [OF assms]
    by (blast intro: list_untouched_trans)
  show ?thesis
    using closeTicket_tables [of flt ticket hours now active w] full
    by (auto simp: list_untouched_refl)
qed

lemma closeEach_untouched:
  "t_ID ` set xs \<subseteq> S \<Longrightarrow>
   list_all2 (untouched S) (tw_tickets w) (tw_tickets (snd (closeEach flt hours now xs n w)))"
proof (induction xs arbitrary: n w)
  case Nil
  show ?case by (simp add: list_untouched_refl)
next
  case (Cons x xs)
  obtain e w1 where step: "closeTicket flt x hours now activeStatuses w = (e, w1)"
    by (cases "closeTicket flt x hours now activeStatuses w")
  have one: "list_all2 (untouched S) (tw_tickets w) (tw_tickets w1)"
    using closeTicket_untouched [of x S w flt hours now activeStatuses] Cons.prems
    by (simp add: step)
  have sub: "t_ID ` set xs \<subseteq> S" using Cons.prems by simp
  show ?case
  proof (cases e)
    case None
    have eq: "closeEach flt hours now (x # xs) n w = closeEach flt hours now xs (n + 1) w1"
      by (simp add: step None)
    show ?thesis
      unfolding eq using Cons.IH [OF sub, of w1 "n + 1"] one
      by (blast intro: list_untouched_trans)
  next
    case (Some err)
    let ?w2 = "w1\<lparr>tw_logs := tw_logs w1 @
        [''[TicketAutoClose] Error closing ticket '' @ t_TicketNo x @ '': '' @ err]\<rparr>"
    have eq: "closeEach flt hours now (x # xs) n w = closeEach flt hours now xs n ?w2"
      by (simp add: step Some)
    have two: "tw_tickets ?w2 = tw_tickets w1" by simp
    show ?thesis
      unfolding eq using Cons.IH [OF sub, of ?w2 n] one two
      by (auto intro: list_untouched_trans)
  qed
qed

lemma closeInactiveTickets_untouched:
  "list_all2 (untouched (t_ID ` set (inactiveTickets (hoursBefore clock hours) w)))
     (tw_tickets w) (tw_tickets (closeInactiveTickets flt hours clock now w))"
proof -
  let ?S = "t_ID ` set (inactiveTickets (hoursBefore clock hours) w)"
  let ?w0 = "w\<lparr>tw_calls := tw_calls w @ [QueryInactiveTickets]\<rparr>"
  obtain n w1 where run:
    "closeEach flt hours now (inactiveTickets (hoursBefore clock hours) w) 0 ?w0 = (n, w1)"
    by (cases "closeEach flt hours now (inactiveTickets (hoursBefore clock hours) w) 0 ?w0")
  have "list_all2 (untouched ?S) (tw_tickets ?w0) (tw_tickets w1)"
    using closeEach_untouched [of "inactiveTickets (hoursBefore clock hours) w" ?S ?w0 flt hours now 0]
    by (simp add: run)
  then show ?thesis
    by (simp add: closeInactiveTickets_def Let_def run list_untouched_refl split: option.splits)
qed

lemma inactive_selected:
  assumes "x \<in> set (inactiveTickets cutoff w)"
  shows "\<exists>y at. y \<in> set (tw_tickets w) \<and> x = preloadUser (tw_users w) y \<and>
           t_LastMessageAt y = Some at \<and> at < cutoff \<and> t_Status y \<in> set activeStatuses"
proof -
  obtain y where y: "x = preloadUser (tw_users w) y"
      "y \<in> set (take 100 (filter (\<lambda>t. t_Status t \<in> set activeStatuses \<and>
                       (case t_LastMessageAt t of None \<Rightarrow> False | Some at \<Rightarrow> at < cutoff))
                  (tw_tickets w)))"
    using assms by (auto simp: inactiveTickets_def)
  from y(2) have "y \<in> set (filter (\<lambda>t. t_Status t \<in> set activeStatuses \<and>
                       (case t_LastMessageAt t of None \<Rightarrow> False | Some at \<Rightarrow> at < cutoff))
                  (tw_tickets w))"
    by (rule in_set_takeD)
  then show ?thesis using y(1) by (auto split: option.splits)
qed

lemma preloadUser_fields [simp]:
  "t_ID (preloadUser us t) = t_ID t"
  "t_LastMessageAt (preloadUser us t) = t_LastMessageAt t"
  "t_Status (preloadUser us t) = t_Status t"
  by (simp_all add: preloadUser_def)

theorem closeTicket_all_or_nothing_witness:
  "ticketRowsAffected 1 activeStatuses
     (tw_tickets (exampleTickets [exampleTicket 1 TicketStatusOpen (Some 0)])) > 0
   \<and> fst (closeTicket noFaults
            (preloadUser [exampleUser] (exampleTicket 1 TicketStatusOpen (Some 0)))
            48 exampleNow activeStatuses
            (exampleTickets [exampleTicket 1 TicketStatusOpen (Some 0)])) = None
   \<and> map (\<lambda>r. (t_Status r, t_ClosedAt r, t_UnreadCountUser r))
        (tw_tickets (snd (closeTicket noFaults
            (preloadUser [exampleUser] (exampleTicket 1 TicketStatusOpen (Some 0)))
            48 exampleNow activeStatuses
            (exampleTickets [exampleTicket 1 TicketStatusOpen (Some 0)])))) =
       [(TicketStatusClosed, Some exampleNow, 1)]
   \<and> map tm_Content
        (tw_messages (snd (closeTicket noFaults
            (preloadUser [exampleUser] (exampleTicket 1 TicketStatusOpen (Some 0)))
            48 exampleNow activeStatuses
            (exampleTickets [exampleTicket 1 TicketStatusOpen (Some 0)])))) =
       [zhClosedPrefix @ ''48'' @ zhClosedSuffix]
   \<and> ticketRowsAffected 1 activeStatuses
        (tw_tickets (exampleTickets [exampleTicket 1 TicketStatusClosed (Some 0)])) = 0
   \<and> tw_tickets (snd (closeTicket noFaults
            (preloadUser [exampleUser] (exampleTicket 1 TicketStatusOpen (Some 0)))
            48 exampleNow activeStatuses
            (exampleTickets [exampleTicket 1 TicketStatusClosed (Some 0)]))) =
       [exampleTicket 1 TicketStatusClosed (Some 0)]
   \<and> tw_messages (snd (closeTicket noFaults
            (preloadUser [exampleUser] (exampleTicket 1 TicketStatusOpen (Some 0)))
            48 exampleNow activeStatuses
            (exampleTickets [exampleTicket 1 TicketStatusClosed (Some 0)]))) = []"
proof -
  let ?t = "preloadUser [exampleUser] (exampleTicket 1 TicketStatusOpen (Some 0))"
  let ?wa = "exampleTickets [exampleTicket 1 TicketStatusOpen (Some 0)]"
  let ?wb = "exampleTickets [exampleTicket 1 TicketStatusClosed (Some 0)]"
  have tid: "t_ID ?t = 1"
    by (simp add: preloadUser_def exampleTicket_def)
  have usr: "t_User ?t = Some exampleUser"
    by (simp add: preloadUser_def exampleTicket_def exampleUser_def)
  have pa: "ticketRowsAffected 1 activeStatuses (tw_tickets ?wa) > 0"
    by (simp add: ticketRowsAffected_def activeStatuses_def exampleTickets_def exampleTicket_def)
  have pb: "ticketRowsAffected 1 activeStatuses (tw_tickets ?wb) = 0"
    by (simp add: ticketRowsAffected_def activeStatuses_def exampleTickets_def exampleTicket_def)
  note ta = closeTicket_all_or_nothing
    [where flt = noFaults and ticket = ?t and hours = 48 and now = exampleNow
       and active = activeStatuses and w = ?wa and i = 0 and preview = "[]", unfolded tid]
  note tb = closeTicket_all_or_nothing
    [where flt = noFaults and ticket = ?t and hours = 48 and now = exampleNow
       and active = activeStatuses and w = ?wb and i = 0 and preview = "[]", unfolded tid]
  have a1: "fst (closeTicket noFaults ?t 48 exampleNow activeStatuses ?wa) = None"
    using ta pa by blast
  have a2: "tw_tickets (snd (closeTicket noFaults ?t 48 exampleNow activeStatuses ?wa)) =
      bumpRows 1 exampleNow (messagePreview (ticketAutoCloseMessage (t_User ?t) 48))
        (closeRows 1 activeStatuses exampleNow (tw_tickets ?wa))"
    using ta pa by blast
  have a3: "tw_messages (snd (closeTicket noFaults ?t 48 exampleNow activeStatuses ?wa)) =
      tw_messages ?wa @ [systemMessage ?t 48]"
    using ta pa by blast
  have "tm_Content (systemMessage ?t 48) =
      (if (\<exists>u. t_User ?t = Some u \<and> u_Locale u = ''zh'')
       then zhClosedPrefix @ itoa 48 @ zhClosedSuffix
       else ''Ticket automatically closed after '' @ itoa 48 @ '' hours with no reply.'')"
    using ta by blast
  then have a4: "tm_Content (systemMessage ?t 48) = zhClosedPrefix @ ''48'' @ zhClosedSuffix"
    using usr by (simp add: exampleUser_def itoa_def natToDec.simps digits10_def)
  have b1: "tw_tickets (snd (closeTicket noFaults ?t 48 exampleNow activeStatuses ?wb)) =
      tw_tickets ?wb"
    using tb pb by blast
  have b2: "tw_messages (snd (closeTicket noFaults ?t 48 exampleNow activeStatuses ?wb)) =
      tw_messages ?wb"
    using tb pb by blast
  have c1: "map (\<lambda>r. (t_Status r, t_ClosedAt r, t_UnreadCountUser r))
      (tw_tickets (snd (closeTicket noFaults ?t 48 exampleNow activeStatuses ?wa))) =
      [(TicketStatusClosed, Some exampleNow, 1)]"
    unfolding a2
    by (simp add: bumpRows_def closeRows_def activeStatuses_def exampleTickets_def
        exampleTicket_def)
  have c2: "map tm_Content
      (tw_messages (snd (closeTicket noFaults ?t 48 exampleNow activeStatuses ?wa))) =
      [zhClosedPrefix @ ''48'' @ zhClosedSuffix]"
    unfolding a3 using a4 by (simp add: exampleTickets_def)
  have c3: "tw_tickets (snd (closeTicket noFaults ?t 48 exampleNow activeStatuses ?wb)) =
      [exampleTicket 1 TicketStatusClosed (Some 0)]"
    unfolding b1 by (simp add: exampleTickets_def)
  have c4: "tw_messages (snd (closeTicket noFaults ?t 48 exampleNow activeStatuses ?wb)) = []"
    unfolding b2 by (simp add: exampleTickets_def)
  show ?thesis
    by (intro conjI pa a1 c1 c2 pb c3 c4)
qed

text \<open>
  C10. Every ticket the query of the sweep selects has a \<open>last_message_at\<close> that is not null
  and lies before the cutoff (and an active status); a ticket whose \<open>last_message_at\<close> is
  null is not among the selected ones, whatever its status and age; and, ticket ids
  being unique, a run of the sweep leaves every row with a null \<open>last_message_at\<close> exactly
  as it was, whatever calls fail.
\<close>

theorem null_last_message_never_selected:
  "(\<forall>x \<in> set (inactiveTickets cutoff w).
      \<exists>at. t_LastMessageAt x = Some at \<and> at < cutoff \<and> t_Status x \<in> set activeStatuses)
   \<and> (t_LastMessageAt t = None \<longrightarrow> t \<notin> set (inactiveTickets cutoff w))
   \<and> (distinct (map t_ID (tw_tickets w)) \<and> i < length (tw_tickets w) \<and>
      t_LastMessageAt (tw_tickets w ! i) = None \<longrightarrow>
        length (tw_tickets (closeInactiveTickets flt hours clock now w)) = length (tw_tickets w)
        \<and> tw_tickets (closeInactiveTickets flt hours clock now w) ! i = tw_tickets w ! i)"
proof (intro conjI impI ballI)
  fix x assume "x \<in> set (inactiveTickets cutoff w)"
  from inactive_selected [OF this]
  show "\<exists>at. t_LastMessageAt x = Some at \<and> at < cutoff \<and> t_Status x \<in> set activeStatuses"
    by auto
next
  assume n: "t_LastMessageAt t = None"
  show "t \<notin> set (inactiveTickets cutoff w)"
  proof
    assume "t \<in> set (inactiveTickets cutoff w)"
    from inactive_selected [OF this] n show False by auto
  qed
next
  assume a: "distinct (map t_ID (tw_tickets w)) \<and> i < length (tw_tickets w) \<and>
      t_LastMessageAt (tw_tickets w ! i) = None"
  let ?rows = "tw_tickets w"
  let ?S = "t_ID ` set (inactiveTickets (hoursBefore clock hours) w)"
  have l: "list_all2 (untouched ?S) ?rows (tw_tickets (closeInactiveTickets flt hours clock now w))"
    by (rule closeInactiveTickets_untouched)
  show "length (tw_tickets (closeInactiveTickets flt hours clock now w)) = length ?rows"
    using l by (simp add: list_all2_lengthD)
  have notin: "t_ID (?rows ! i) \<notin> ?S"
  proof
    assume "t_ID (?rows ! i) \<in> ?S"
    then obtain x where x: "x \<in> set (inactiveTickets (hoursBefore clock hours) w)"
        "t_ID x = t_ID (?rows ! i)"
      by auto
    from inactive_selected [OF x(1)] obtain y at where y: "y \<in> set ?rows"
        "x = preloadUser (tw_users w) y" "t_LastMessageAt y = Some at"
      by blast
    have "t_ID y = t_ID (?rows ! i)" using x(2) y(2) by simp
    moreover have "?rows ! i \<in> set ?rows" using a by simp
    ultimately have "y = ?rows ! i"
      using a y(1) by (meson distinct_map inj_onD)
    then show False using a y(3) by simp
  qed
  have "untouched ?S (?rows ! i) (tw_tickets (closeInactiveTickets flt hours clock now w) ! i)"
    using list_all2_nthD [OF l] a by blast
  then show "tw_tickets (closeInactiveTickets flt hours clock now w) ! i = ?rows ! i"
    using notin by (simp add: untouched_def)
qed

theorem null_last_message_never_selected_witness:
  "distinct (map t_ID (tw_tickets (exampleTickets
       [exampleTicket 1 TicketStatusOpen None, exampleTicket 2 TicketStatusOpen (Some 0)])))
   \<and> t_LastMessageAt (tw_tickets (exampleTickets
       [exampleTicket 1 TicketStatusOpen None, exampleTicket 2 TicketStatusOpen (Some 0)]) ! 0) = None
   \<and> map t_ID (inactiveTickets (hoursBefore exampleNow 48) (exampleTickets
       [exampleTicket 1 TicketStatusOpen None, exampleTicket 2 TicketStatusOpen (Some 0)])) = [2]
   \<and> tw_tickets (closeInactiveTickets noFaults 48 exampleNow exampleNow (exampleTickets
       [exampleTicket 1 TicketStatusOpen None, exampleTicket 2 TicketStatusOpen (Some 0)])) ! 0 =
       exampleTicket 1 TicketStatusOpen None"
proof -
  let ?w = "exampleTickets
       [exampleTicket 1 TicketStatusOpen None, exampleTicket 2 TicketStatusOpen (Some 0)]"
  have d: "distinct (map t_ID (tw_tickets ?w))"
    by (simp add: exampleTickets_def exampleTicket_def)
  have n: "t_LastMessageAt (tw_tickets ?w ! 0) = None"
    by (simp add: exampleTickets_def exampleTicket_def)
  have l: "0 < length (tw_tickets ?w)"
    by (simp add: exampleTickets_def)
  have q: "map t_ID (inactiveTickets (hoursBefore exampleNow 48) ?w) = [2]"
    by (simp add: inactiveTickets_def hoursBefore_def activeStatuses_def exampleTickets_def
        exampleTicket_def exampleNow_def)
  note t = null_last_message_never_selected
    [where flt = noFaults and hours = 48 and clock = exampleNow and now = exampleNow and i = 0
       and w = ?w]
  have "tw_tickets (closeInactiveTickets noFaults 48 exampleNow exampleNow ?w) ! 0 =
      tw_tickets ?w ! 0"
    using t d n l by blast
  then have r: "tw_tickets (closeInactiveTickets noFaults 48 exampleNow exampleNow ?w) ! 0 =
      exampleTicket 1 TicketStatusOpen None"
    by (simp add: exampleTickets_def)
  show ?thesis by (intro conjI d n q r)
qed
section \<open>HTTP calls made by a script: blocked destinations and dropped headers\<close>

lemma doHTTPRequest_blocked:
  assumes "url_Parse env urlStr = Inr u" and "validateExternalURL env u = Some e"
  shows "doHTTPRequest env verb urlStr body headers sent =
           (errorResult ''URL is not allowed'' 0, sent)"
  using assms by (simp add: doHTTPRequest_def)

text \<open>
  C4. When the URL of a script's HTTP call parses and the egress validation rejects it,
  \<open>doHTTPRequest\<close> returns the value \<open>{error: "URL is not allowed", status: 0}\<close> and hands
  no request to the client; so do \<open>http.get\<close>, \<open>http.post\<close> and \<open>http.request\<close> called with
  that URL: each returns that value to the script (it does not throw) and the list of
  requests handed to the client is unchanged.
\<close>

theorem blocked_url_returns_error_value:
  assumes "url_Parse env urlStr = Inr u"
      and "validateExternalURL env u = Some e"
  shows "doHTTPRequest env verb urlStr body headers sent =
           (JSObject [(''error'', JSString ''URL is not allowed''), (''status'', JSNumber 0)], sent)
       \<and> (length args \<ge> 1 \<and> js_String env (args ! 0) = urlStr \<longrightarrow>
            http_get env args sent =
              (Returns (JSObject [(''error'', JSString ''URL is not allowed''),
                                  (''status'', JSNumber 0)]), sent)
            \<and> http_post env args sent =
              (Returns (JSObject [(''error'', JSString ''URL is not allowed''),
                                  (''status'', JSNumber 0)]), sent))
       \<and> (length args \<ge> 2 \<and> js_String env (args ! 1) = urlStr \<longrightarrow>
            http_request env args sent =
              (Returns (JSObject [(''error'', JSString ''URL is not allowed''),
                                  (''status'', JSNumber 0)]), sent))"
proof -
  have blocked: "doHTTPRequest env m urlStr b hs sent =
      (JSObject [(''error'', JSString ''URL is not allowed''), (''status'', JSNumber 0)], sent)"
    for m b hs
    using doHTTPRequest_blocked [OF assms] by (simp add: errorResult_def)
  show ?thesis
    by (auto simp: blocked http_get_def http_post_def http_request_def)
qed

theorem blocked_url_returns_error_value_witness:
  "url_Parse exampleEnv ''http://127.0.0.1/admin'' = Inr ''http://127.0.0.1/admin''
   \<and> validateExternalURL exampleEnv ''http://127.0.0.1/admin'' = Some ''address not allowed''
   \<and> http_get exampleEnv [JSString ''http://127.0.0.1/admin''] [] =
       (Returns (JSObject [(''error'', JSString ''URL is not allowed''), (''status'', JSNumber 0)]),
        [])
   \<and> url_Parse exampleEnv ''http://169.254.169.254/latest'' = Inr ''http://169.254.169.254/latest''
   \<and> validateExternalURL exampleEnv ''http://169.254.169.254/latest'' =
       Some ''address not allowed''
   \<and> http_request exampleEnv
        [JSString ''POST'', JSString ''http://169.254.169.254/latest'', JSString ''x''] [] =
       (Returns (JSObject [(''error'', JSString ''URL is not allowed''), (''status'', JSNumber 0)]),
        [])
   \<and> length (snd (http_get exampleEnv [JSString ''https://example.com/''] [])) = 1"
proof -
  have a: "url_Parse exampleEnv ''http://127.0.0.1/admin'' = Inr ''http://127.0.0.1/admin''"
    by (simp add: exampleEnv_def)
  have b: "validateExternalURL exampleEnv ''http://127.0.0.1/admin'' = Some ''address not allowed''"
    by (simp add: exampleEnv_def HasPrefix_def)
  have c: "url_Parse exampleEnv ''http://169.254.169.254/latest'' =
      Inr ''http://169.254.169.254/latest''"
    by (simp add: exampleEnv_def)
  have d: "validateExternalURL exampleEnv ''http://169.254.169.254/latest'' =
      Some ''address not allowed''"
    by (simp add: exampleEnv_def HasPrefix_def)
  have js: "js_String exampleEnv (JSString s) = s" for s
    by (simp add: exampleEnv_def)
  have g: "http_get exampleEnv [JSString ''http://127.0.0.1/admin''] [] =
      (Returns (JSObject [(''error'', JSString ''URL is not allowed''), (''status'', JSNumber 0)]),
       [])"
    using blocked_url_returns_error_value
      [OF a b, where args = "[JSString ''http://127.0.0.1/admin'']" and sent = "[]"]
    by (simp add: js)
  have r: "http_request exampleEnv
        [JSString ''POST'', JSString ''http://169.254.169.254/latest'', JSString ''x''] [] =
      (Returns (JSObject [(''error'', JSString ''URL is not allowed''), (''status'', JSNumber 0)]),
       [])"
    using blocked_url_returns_error_value
      [OF c d, where args = "[JSString ''POST'', JSString ''http://169.254.169.254/latest'',
                              JSString ''x'']" and sent = "[]"]
    by (simp add: js)
  have ok: "length (snd (http_get exampleEnv [JSString ''https://example.com/''] [])) = 1"
    by (simp add: http_get_def doHTTPRequest_def exampleEnv_def HasPrefix_def prepareBody_def
        extractHeaders_def)
  show ?thesis
    by (intro conjI a b g c d r ok)
qed

lemma setScriptHeaders_kept:
  "setScriptHeaders env headers h =
     foldl (\<lambda>h (k, v). Header_Set env h k v) h (keptHeaders env headers)"
  by (induction headers arbitrary: h) (auto simp: keptHeaders_def droppedKey_def)

lemma keptHeaders_idem: "keptHeaders env (keptHeaders env headers) = keptHeaders env headers"
  by (simp add: keptHeaders_def)

lemma headerValue_kept:
  assumes "\<not> droppedKey env key"
  shows "headerValue (keptHeaders env headers) key = headerValue headers key"
proof -
  have "map_of (keptHeaders env headers) key = map_of headers key"
    using assms by (induction headers) (auto simp: keptHeaders_def)
  then show ?thesis by (simp add: headerValue_def)
qed

lemma requestHeader_kept:
  assumes "\<not> droppedKey env ''Content-Type''"
  shows "requestHeader env contentType headers =
         requestHeader env contentType (keptHeaders env headers)"
  unfolding requestHeader_def Let_def headerValue_kept [OF assms]
  by (simp add: setScriptHeaders_kept keptHeaders_idem)

lemma doHTTPRequest_kept:
  assumes "\<not> droppedKey env ''Content-Type''"
  shows "doHTTPRequest env verb urlStr body headers sent =
         doHTTPRequest env verb urlStr body (keptHeaders env headers) sent"
  unfolding doHTTPRequest_def requestHeader_kept [OF assms, of _ headers] keptHeaders_idem
  by (rule refl)

text \<open>
  C8. The loop over the script's headers sets exactly the headers whose key is not
  \<open>Host\<close> or \<open>Proxy-Authorization\<close> under \<open>strings.EqualFold\<close>, in the order met; a header
  with such a key is never passed to \<open>Header.Set\<close>. Hence (\<open>Content-Type\<close> not being
  equal to either name under \<open>EqualFold\<close>) two calls whose headers agree once those
  keys are removed build the same header map and the same request, return the same
  value and hand the same requests to the client; in particular adding a \<open>Host\<close> or
  \<open>Proxy-Authorization\<close> header, in any letter case, to a call changes nothing.
\<close>

theorem dropped_headers_do_not_reach_request:
  "setScriptHeaders env headers h =
     foldl (\<lambda>h (k, v). Header_Set env h k v) h (keptHeaders env headers)
   \<and> list_all (\<lambda>(k, v). \<not> strings_EqualFold env k ''Host'' \<and>
                         \<not> strings_EqualFold env k ''Proxy-Authorization'')
        (keptHeaders env headers)
   \<and> (\<not> droppedKey env ''Content-Type'' \<and> keptHeaders env headersA = keptHeaders env headersB \<longrightarrow>
        requestHeader env contentType headersA = requestHeader env contentType headersB
        \<and> doHTTPRequest env verb urlStr body headersA sent =
          doHTTPRequest env verb urlStr body headersB sent)
   \<and> (\<not> droppedKey env ''Content-Type'' \<and> droppedKey env k \<longrightarrow>
        doHTTPRequest env verb urlStr body (headers @ [(k, v)]) sent =
          doHTTPRequest env verb urlStr body headers sent
        \<and> doHTTPRequest env verb urlStr body ((k, v) # headers) sent =
          doHTTPRequest env verb urlStr body headers sent)"
proof (intro conjI impI)
  show "setScriptHeaders env headers h =
      foldl (\<lambda>h (k, v). Header_Set env h k v) h (keptHeaders env headers)"
    by (rule setScriptHeaders_kept)
  show "list_all (\<lambda>(k, v). \<not> strings_EqualFold env k ''Host'' \<and>
                         \<not> strings_EqualFold env k ''Proxy-Authorization'')
        (keptHeaders env headers)"
    by (auto simp: list_all_iff keptHeaders_def droppedKey_def)
next
  assume a: "\<not> droppedKey env ''Content-Type'' \<and> keptHeaders env headersA = keptHeaders env headersB"
  then have ct: "\<not> droppedKey env ''Content-Type''"
    and same: "keptHeaders env headersA = keptHeaders env headersB"
    by simp_all
  show "requestHeader env contentType headersA = requestHeader env contentType headersB"
    using requestHeader_kept [OF ct, of contentType headersA]
      requestHeader_kept [OF ct, of contentType headersB] same by simp
  show "doHTTPRequest env verb urlStr body headersA sent =
      doHTTPRequest env verb urlStr body headersB sent"
    using doHTTPRequest_kept [OF ct, of verb urlStr body headersA sent]
      doHTTPRequest_kept [OF ct, of verb urlStr body headersB sent] same by simp
next
  assume b: "\<not> droppedKey env ''Content-Type'' \<and> droppedKey env k"
  then have ct: "\<not> droppedKey env ''Content-Type''" and dk: "droppedKey env k"
    by simp_all
  have k1: "keptHeaders env (headers @ [(k, v)]) = keptHeaders env headers"
    using dk by (simp add: keptHeaders_def)
  have k2: "keptHeaders env ((k, v) # headers) = keptHeaders env headers"
    using dk by (simp add: keptHeaders_def)
  show "doHTTPRequest env verb urlStr body (headers @ [(k, v)]) sent =
      doHTTPRequest env verb urlStr body headers sent"
    using doHTTPRequest_kept [OF ct, of verb urlStr body "headers @ [(k, v)]" sent]
      doHTTPRequest_kept [OF ct, of verb urlStr body headers sent] k1 by simp
  show "doHTTPRequest env verb urlStr body ((k, v) # headers) sent =
      doHTTPRequest env verb urlStr body headers sent"
    using doHTTPRequest_kept [OF ct, of verb urlStr body "(k, v) # headers" sent]
      doHTTPRequest_kept [OF ct, of verb urlStr body headers sent] k2 by simp
qed

lemma asciiEqualFold_examples:
  "asciiEqualFold ''hOsT'' ''Host''"
  "asciiEqualFold ''proxy-authorization'' ''Proxy-Authorization''"
  "\<not> asciiEqualFold ''Content-Type'' ''Host''"
  "\<not> asciiEqualFold ''Content-Type'' ''Proxy-Authorization''"
  "\<not> asciiEqualFold ''X-Api-Key'' ''Host''"
  "\<not> asciiEqualFold ''X-Api-Key'' ''Proxy-Authorization''"
  by (simp_all add: asciiEqualFold_def asciiLower_def)

theorem dropped_headers_do_not_reach_request_witness:
  "\<not> droppedKey exampleEnv ''Content-Type''
   \<and> droppedKey exampleEnv ''hOsT''
   \<and> droppedKey exampleEnv ''proxy-authorization''
   \<and> keptHeaders exampleEnv
        [(''hOsT'', ''metadata.internal''), (''X-Api-Key'', ''k1''),
         (''proxy-authorization'', ''Basic abc'')] = [(''X-Api-Key'', ''k1'')]
   \<and> doHTTPRequest exampleEnv ''GET'' ''https://example.com/'' JSUndefined
        [(''hOsT'', ''metadata.internal''), (''X-Api-Key'', ''k1''),
         (''proxy-authorization'', ''Basic abc'')] [] =
       doHTTPRequest exampleEnv ''GET'' ''https://example.com/'' JSUndefined
        [(''X-Api-Key'', ''k1'')] []
   \<and> map (\<lambda>r. (rq_Header r ''hOsT'', rq_Header r ''proxy-authorization'', rq_Header r ''X-Api-Key''))
        (snd (doHTTPRequest exampleEnv ''GET'' ''https://example.com/'' JSUndefined
           [(''X-Api-Key'', ''k1'')] [])) = [(None, None, Some ''k1'')]"
proof -
  have fold: "strings_EqualFold exampleEnv = asciiEqualFold"
    by (simp add: exampleEnv_def)
  have ct: "\<not> droppedKey exampleEnv ''Content-Type''"
    by (simp add: droppedKey_def fold asciiEqualFold_examples)
  have d1: "droppedKey exampleEnv ''hOsT''"
    by (simp add: droppedKey_def fold asciiEqualFold_examples)
  have d2: "droppedKey exampleEnv ''proxy-authorization''"
    by (simp add: droppedKey_def fold asciiEqualFold_examples)
  have d3: "\<not> droppedKey exampleEnv ''X-Api-Key''"
    by (simp add: droppedKey_def fold asciiEqualFold_examples)
  have kept: "keptHeaders exampleEnv
        [(''hOsT'', ''metadata.internal''), (''X-Api-Key'', ''k1''),
         (''proxy-authorization'', ''Basic abc'')] = [(''X-Api-Key'', ''k1'')]"
    by (simp add: keptHeaders_def d1 d2 d3)
  have kept': "keptHeaders exampleEnv [(''X-Api-Key'', ''k1'')] = [(''X-Api-Key'', ''k1'')]"
    by (simp add: keptHeaders_def d3)
  have same: "doHTTPRequest exampleEnv ''GET'' ''https://example.com/'' JSUndefined
        [(''hOsT'', ''metadata.internal''), (''X-Api-Key'', ''k1''),
         (''proxy-authorization'', ''Basic abc'')] [] =
       doHTTPRequest exampleEnv ''GET'' ''https://example.com/'' JSUndefined
        [(''X-Api-Key'', ''k1'')] []"
    using dropped_headers_do_not_reach_request
      [where env = exampleEnv and verb = "''GET''" and urlStr = "''https://example.com/''"
         and body = JSUndefined and sent = "[]"
         and headersA = "[(''hOsT'', ''metadata.internal''), (''X-Api-Key'', ''k1''),
                          (''proxy-authorization'', ''Basic abc'')]"
         and headersB = "[(''X-Api-Key'', ''k1'')]"]
      ct kept kept'
    by simp
  have hdr: "map (\<lambda>r. (rq_Header r ''hOsT'', rq_Header r ''proxy-authorization'',
                        rq_Header r ''X-Api-Key''))
        (snd (doHTTPRequest exampleEnv ''GET'' ''https://example.com/'' JSUndefined
           [(''X-Api-Key'', ''k1'')] [])) = [(None, None, Some ''k1'')]"
    by (simp add: doHTTPRequest_def requestHeader_def headerValue_def prepareBody_def
        Header_Set_def exampleEnv_def HasPrefix_def asciiEqualFold_examples)
  show ?thesis
    by (intro conjI ct d1 d2 kept same hdr)
qed

end
